theory Spec2Isabelle
  imports Complex_Main
begin

section \<open>Numbers\<close>

text \<open>
  The game screen (\<^verbatim>\<open>GameScreen\<close>) works on JavaScript numbers. Coordinates, sizes and
  velocities are modelled as \<^typ>\<open>real\<close>; level identifiers, the score, the lives and the
  state of the seeded generator are integers in the program and are modelled as \<^typ>\<open>int\<close>.
  An integer below \<open>2^53\<close> is exact in a JavaScript number, and so is the quotient of an
  integer below \<open>2^32\<close> by \<open>2^32\<close>; rounding of the other floating-point operations is
  not part of the model.
\<close>

text \<open>JavaScript's \<^verbatim>\<open>%\<close>: the remainder takes the sign of the dividend.\<close>

definition js_rem :: "int \<Rightarrow> int \<Rightarrow> int" where
  "js_rem a b = sgn a * (\<bar>a\<bar> mod \<bar>b\<bar>)"

section \<open>Seeded random source\<close>

text \<open>
  \<^verbatim>\<open>seededRandom(seed)\<close> returns a closure over one variable \<^verbatim>\<open>state\<close>, initially the
  seed. The closure is modelled by the value of that variable; a call of the closure
  returns the drawn number together with the new state.
\<close>

type_synonym rng = int

definition seededRandom :: "int \<Rightarrow> rng" where
  "seededRandom seed = seed"

definition random_next :: "rng \<Rightarrow> real \<times> rng" where
  "random_next state =
     (let state' = js_rem (state * 1664525 + 1013904223) 4294967296
      in (real_of_int state' / 4294967296, state'))"

text \<open>The numbers returned by \<open>n\<close> successive calls of one generator.\<close>

fun draws :: "nat \<Rightarrow> rng \<Rightarrow> real list" where
  "draws 0 state = []"
| "draws (Suc n) state = (let (r, state') = random_next state in r # draws n state')"

text \<open>The state of a generator after \<open>n\<close> calls.\<close>

fun state_after :: "nat \<Rightarrow> rng \<Rightarrow> rng" where
  "state_after 0 state = state"
| "state_after (Suc n) state = state_after n (snd (random_next state))"

text \<open>The update of the linear congruential generator, as the specification words it.\<close>

definition lcg :: "int \<Rightarrow> int" where
  "lcg s = (s * 1664525 + 1013904223) mod 2 ^ 32"

section \<open>Level layout generator\<close>

record Block =
  x :: real
  y :: real
  width :: real
  height :: real
  alive :: bool
  color :: string

definition CANVAS_WIDTH :: real where
  "CANVAS_WIDTH = 800"

definition CANVAS_HEIGHT :: real where
  "CANVAS_HEIGHT = 600"

text \<open>The object literal pushed onto \<^verbatim>\<open>blocks\<close>: every generated block is alive.\<close>

definition newBlock :: "real \<Rightarrow> real \<Rightarrow> real \<Rightarrow> real \<Rightarrow> string \<Rightarrow> Block" where
  "newBlock px py w h c =
     \<lparr>Block.x = px, Block.y = py, Block.width = w, Block.height = h, alive = True, color = c\<rparr>"

subsection \<open>Hand-authored layouts, levels 1 to 5\<close>

text \<open>Level 1: grid of 4 rows and 6 columns, filled row by row.\<close>

definition level1 :: "Block list" where
  "level1 =
     concat (map (\<lambda>row. map (\<lambda>col.
         newBlock (50 + real col * (60 + 5)) (50 + real row * (25 + 5)) 60 25 ''#3b82f6'')
       [0..<6]) [0..<4])"

text \<open>Level 2: 8 blocks on a circle of radius 120 around \<open>(CANVAS_WIDTH / 2, 200)\<close>.\<close>

definition level2 :: "Block list" where
  "level2 =
     map (\<lambda>i. let angle = (real i / 8) * pi * 2 - pi / 2;
                 px = CANVAS_WIDTH / 2 + cos angle * 120 - 70 / 2;
                 py = 200 + sin angle * 120 - 25 / 2
             in newBlock px py 70 25 ''#7c3aed'')
       [0..<8]"

text \<open>
  Level 3: \<^verbatim>\<open>pyramidRows.forEach\<close>, with the running \<^verbatim>\<open>startY\<close> that the callback
  advances after each row.
\<close>

definition colors3 :: "string list" where
  "colors3 = [''#f97316'', ''#fb923c'', ''#fdba74'', ''#fed7aa'']"

fun pyramid :: "nat list \<Rightarrow> nat \<Rightarrow> real \<Rightarrow> Block list" where
  "pyramid [] rowIndex startY = []"
| "pyramid (blocksInRow # rest) rowIndex startY =
     (let rowWidth = real blocksInRow * 55 + (real blocksInRow - 1) * 8;
          startX = (CANVAS_WIDTH - rowWidth) / 2
      in map (\<lambda>i. newBlock (startX + real i * (55 + 8)) startY 55 22
                     (colors3 ! (rowIndex mod length colors3)))
           [0..<blocksInRow]
         @ pyramid rest (Suc rowIndex) (startY + (22 + 8)))"

definition level3 :: "Block list" where
  "level3 = pyramid [7, 6, 5, 4, 3, 2, 1] 0 50"

text \<open>Level 4: checkerboard of 8 by 8, a block where \<open>row + col\<close> is even.\<close>

definition level4 :: "Block list" where
  "level4 =
     (let startX = (CANVAS_WIDTH - (8 * 55 + (8 - 1) * 4)) / 2
      in concat (map (\<lambda>row. concat (map (\<lambda>col.
           if (row + col) mod 2 = 0
           then [newBlock (startX + real col * (55 + 4)) (50 + real row * (22 + 4)) 55 22
                   (if row mod 2 = 0 then ''#06b6d4'' else ''#a855f7'')]
           else [])
         [0..<8])) [0..<(8::nat)]))"

text \<open>Level 5: outer wall, left tower, right tower, inner wall and core, in this order.\<close>

definition colors5 :: "string list" where
  "colors5 = [''#dc2626'', ''#ef4444'', ''#f97316'', ''#fb923c'']"

definition level5 :: "Block list" where
  "level5 =
     (let blockWidth = 50; blockHeight = 20; gapX = 5; gapY = 5;
          outerWallBlocks = (12::nat);
          outerY = 50;
          outerStartX = (CANVAS_WIDTH
                          - (real outerWallBlocks * blockWidth + (real outerWallBlocks - 1) * gapX)) / 2;
          outerWall = map (\<lambda>i. newBlock (outerStartX + real i * (blockWidth + gapX)) outerY
                                  blockWidth blockHeight (colors5 ! 0)) [0..<outerWallBlocks];
          leftTower = concat (map (\<lambda>row. map (\<lambda>col.
                          newBlock (outerStartX + real col * (blockWidth + gapX))
                                   (outerY + (real row + 1) * (blockHeight + gapY))
                                   blockWidth blockHeight (colors5 ! (row + 1)))
                        [0..<2]) [0..<(2::nat)]);
          rightTower = concat (map (\<lambda>row. map (\<lambda>col.
                          newBlock (outerStartX + (real outerWallBlocks - 2 + real col) * (blockWidth + gapX))
                                   (outerY + (real row + 1) * (blockHeight + gapY))
                                   blockWidth blockHeight (colors5 ! (row + 1)))
                        [0..<2]) [0..<(2::nat)]);
          innerWallBlocks = (8::nat);
          innerY = outerY + (blockHeight + gapY) * 3;
          innerStartX = (CANVAS_WIDTH
                          - (real innerWallBlocks * blockWidth + (real innerWallBlocks - 1) * gapX)) / 2;
          innerWall = map (\<lambda>i. newBlock (innerStartX + real i * (blockWidth + gapX)) innerY
                                  blockWidth blockHeight (colors5 ! 1)) [0..<innerWallBlocks];
          coreBlocks = (4::nat);
          coreY = innerY + (blockHeight + gapY);
          coreStartX = (CANVAS_WIDTH
                         - (real coreBlocks * blockWidth + (real coreBlocks - 1) * gapX)) / 2;
          core = concat (map (\<lambda>row. map (\<lambda>col.
                          newBlock (coreStartX + real col * (blockWidth + gapX))
                                   (coreY + real row * (blockHeight + gapY))
                                   blockWidth blockHeight (colors5 ! 3))
                        [0..<coreBlocks]) [0..<(2::nat)])
      in outerWall @ leftTower @ rightTower @ innerWall @ core)"

subsection \<open>Clusters of the procedural layouts\<close>

definition margin :: real where
  "margin = 50"

definition maxY :: real where
  "maxY = 420"

text \<open>
  Reading \<^verbatim>\<open>patterns[k]\<close> or \<^verbatim>\<open>colors[k]\<close>: outside the array JavaScript gives
  \<^verbatim>\<open>undefined\<close>, here \<open>None\<close>.
\<close>

definition lookup :: "'a list \<Rightarrow> int \<Rightarrow> 'a option" where
  "lookup xs k = (if 0 \<le> k \<and> k < int (length xs) then Some (xs ! nat k) else None)"

definition colors :: "string list" where
  "colors = [''#f97316'', ''#06b6d4'', ''#a855f7'', ''#ec4899'', ''#eab308'']"

text \<open>
  The properties drawn for one cluster before its pattern is laid out. A colour read
  outside the array is kept as the text \<open>undefined\<close>.
\<close>

record Cluster =
  clusterX :: real
  clusterY :: real
  pattern :: "string option"
  blockCount :: int
  color :: string
  blockWidth :: real
  blockHeight :: real

definition pickColor :: "real \<Rightarrow> string" where
  "pickColor r =
     (case lookup colors \<lfloor>r * real (length colors)\<rfloor> of Some c \<Rightarrow> c | None \<Rightarrow> ''undefined'')"

text \<open>The boundary filter that guards every \<^verbatim>\<open>blocks.push\<close> of the procedural layouts.\<close>

definition inBounds :: "real \<Rightarrow> real \<Rightarrow> real \<Rightarrow> real \<Rightarrow> bool" where
  "inBounds px py w h \<longleftrightarrow>
     px \<ge> margin \<and> px + w \<le> CANVAS_WIDTH - margin \<and> py \<ge> margin \<and> py + h \<le> maxY"

definition candidate :: "Cluster \<Rightarrow> real \<Rightarrow> real \<Rightarrow> Block list" where
  "candidate c px py =
     (if inBounds px py (blockWidth c) (blockHeight c)
      then [newBlock px py (blockWidth c) (blockHeight c) (Cluster.color c)]
      else [])"

text \<open>Pattern \<^verbatim>\<open>tight\<close>: grid of two rows.\<close>

definition tight :: "Cluster \<Rightarrow> real \<Rightarrow> Block list" where
  "tight c gap =
     (let rows = 2;
          cols = \<lceil>real_of_int (blockCount c) / rows\<rceil>
      in concat (map (\<lambda>i.
           let row = \<lfloor>real i / real_of_int cols\<rfloor>;
               col = js_rem (int i) cols
           in candidate c (clusterX c + real_of_int col * (blockWidth c + gap))
                          (clusterY c + real_of_int row * (blockHeight c + gap)))
         [0..<nat (blockCount c)]))"

text \<open>
  Pattern \<^verbatim>\<open>scattered\<close>: two draws for every block. \<open>jitter\<close>, \<open>lo\<close> and \<open>spread\<close> are
  the constants of the two copies of the loop (0.5, 0.7, 0.6 for level 6 and
  0.6, 0.6, 0.7 for the levels from 100).
\<close>

fun scattered :: "Cluster \<Rightarrow> real \<Rightarrow> real \<Rightarrow> real \<Rightarrow> real \<Rightarrow> nat list \<Rightarrow> rng
                    \<Rightarrow> Block list \<times> rng" where
  "scattered c radius jitter lo spread [] st = ([], st)"
| "scattered c radius jitter lo spread (i # rest) st =
     (let (r1, st1) = random_next st;
          angle = (real i / real_of_int (blockCount c)) * pi * 2 + r1 * jitter;
          (r2, st2) = random_next st1;
          r = radius * (lo + r2 * spread);
          here = candidate c (clusterX c + cos angle * r) (clusterY c + sin angle * r);
          (more, st') = scattered c radius jitter lo spread rest st2
      in (here @ more, st'))"

text \<open>
  Pattern \<^verbatim>\<open>line\<close>: \<open>freq\<close> and \<open>amp\<close> are the constants of the wobble
  (0.8 and 10 for level 6, 0.9 and 12 for the levels from 100).
\<close>

definition line :: "Cluster \<Rightarrow> real \<Rightarrow> real \<Rightarrow> real \<Rightarrow> real \<Rightarrow> Block list" where
  "line c angle spacing freq amp =
     concat (map (\<lambda>i.
         candidate c (clusterX c + real i * spacing * cos angle)
                     (clusterY c + real i * spacing * sin angle + sin (real i * freq) * amp))
       [0..<nat (blockCount c)])"

text \<open>Pattern \<^verbatim>\<open>arc\<close>; \<^verbatim>\<open>blockCount - 1 || 1\<close> replaces a zero divisor by 1.\<close>

definition arc :: "Cluster \<Rightarrow> real \<Rightarrow> real \<Rightarrow> real \<Rightarrow> Block list" where
  "arc c arcRadius startAngle arcLength =
     concat (map (\<lambda>i.
         let t = real i / real_of_int (if blockCount c - 1 = 0 then 1 else blockCount c - 1);
             angle = startAngle + t * arcLength
         in candidate c (clusterX c + cos angle * arcRadius) (clusterY c + sin angle * arcRadius))
       [0..<nat (blockCount c)])"

text \<open>Pattern \<^verbatim>\<open>spiral\<close>, only in the levels from 100.\<close>

definition spiral :: "Cluster \<Rightarrow> real \<Rightarrow> Block list" where
  "spiral c spiralTightness =
     concat (map (\<lambda>i.
         let angle = (real i / real_of_int (blockCount c)) * pi * 2 * 1.5;
             radius = 10 + (real i / real_of_int (blockCount c)) * spiralTightness * 15
         in candidate c (clusterX c + cos angle * radius) (clusterY c + sin angle * radius))
       [0..<nat (blockCount c)])"

subsection \<open>Level 6\<close>

definition patterns6 :: "string list" where
  "patterns6 = [''tight'', ''scattered'', ''line'', ''arc'']"

definition header6 :: "rng \<Rightarrow> Cluster \<times> rng" where
  "header6 st0 =
     (let (r1, st1) = random_next st0;
          (r2, st2) = random_next st1;
          (r3, st3) = random_next st2;
          (r4, st4) = random_next st3;
          (r5, st5) = random_next st4;
          (r6, st6) = random_next st5;
          (r7, st7) = random_next st6
      in (\<lparr>clusterX = margin + r1 * (CANVAS_WIDTH - margin * 2 - 150),
           clusterY = margin + r2 * (maxY - margin - 100),
           pattern = lookup patterns6 \<lfloor>r3 * real (length patterns6)\<rfloor>,
           blockCount = 5 + \<lfloor>r4 * 4\<rfloor>,
           color = pickColor r5,
           blockWidth = 40 + r6 * 15,
           blockHeight = 18 + r7 * 8\<rparr>, st7))"

definition cluster6 :: "rng \<Rightarrow> Block list \<times> rng" where
  "cluster6 st0 =
     (let (c, st7) = header6 st0
      in if pattern c = Some ''tight'' then
           (let (r8, st8) = random_next st7;
                gap = 4 + r8 * 3
            in (tight c gap, st8))
         else if pattern c = Some ''scattered'' then
           (let (r8, st8) = random_next st7;
                radius = 25 + r8 * 30
            in scattered c radius 0.5 0.7 0.6 [0..<nat (blockCount c)] st8)
         else if pattern c = Some ''line'' then
           (let (r8, st8) = random_next st7;
                angle = r8 * pi / 4 - pi / 8;
                (r9, st9) = random_next st8;
                spacing = blockWidth c + 3 + r9 * 5
            in (line c angle spacing 0.8 10, st9))
         else if pattern c = Some ''arc'' then
           (let (r8, st8) = random_next st7;
                arcRadius = 40 + r8 * 40;
                (r9, st9) = random_next st8;
                startAngle = r9 * pi;
                (r10, st10) = random_next st9;
                arcLength = pi * 0.6 + r10 * pi * 0.4
            in (arc c arcRadius startAngle arcLength, st10))
         else ([], st7))"

subsection \<open>Levels from 100\<close>

definition patterns100 :: "string list" where
  "patterns100 = [''tight'', ''scattered'', ''line'', ''arc'', ''spiral'']"

definition header100 :: "rng \<Rightarrow> Cluster \<times> rng" where
  "header100 st0 =
     (let (r1, st1) = random_next st0;
          (r2, st2) = random_next st1;
          (r3, st3) = random_next st2;
          (r4, st4) = random_next st3;
          (r5, st5) = random_next st4;
          (r6, st6) = random_next st5;
          (r7, st7) = random_next st6
      in (\<lparr>clusterX = margin + r1 * (CANVAS_WIDTH - margin * 2 - 150),
           clusterY = margin + r2 * (maxY - margin - 100),
           pattern = lookup patterns100 \<lfloor>r3 * real (length patterns100)\<rfloor>,
           blockCount = 4 + \<lfloor>r4 * 6\<rfloor>,
           color = pickColor r5,
           blockWidth = 35 + r6 * 20,
           blockHeight = 18 + r7 * 10\<rparr>, st7))"

definition cluster100 :: "rng \<Rightarrow> Block list \<times> rng" where
  "cluster100 st0 =
     (let (c, st7) = header100 st0
      in if pattern c = Some ''tight'' then
           (let (r8, st8) = random_next st7;
                gap = 3 + r8 * 4
            in (tight c gap, st8))
         else if pattern c = Some ''scattered'' then
           (let (r8, st8) = random_next st7;
                radius = 25 + r8 * 35
            in scattered c radius 0.6 0.6 0.7 [0..<nat (blockCount c)] st8)
         else if pattern c = Some ''line'' then
           (let (r8, st8) = random_next st7;
                angle = r8 * pi / 3 - pi / 6;
                (r9, st9) = random_next st8;
                spacing = blockWidth c + 2 + r9 * 6
            in (line c angle spacing 0.9 12, st9))
         else if pattern c = Some ''arc'' then
           (let (r8, st8) = random_next st7;
                arcRadius = 35 + r8 * 50;
                (r9, st9) = random_next st8;
                startAngle = r9 * pi;
                (r10, st10) = random_next st9;
                arcLength = pi * 0.5 + r10 * pi * 0.6
            in (arc c arcRadius startAngle arcLength, st10))
         else if pattern c = Some ''spiral'' then
           (let (r8, st8) = random_next st7;
                spiralTightness = 3 + r8 * 4
            in (spiral c spiralTightness, st8))
         else ([], st7))"

definition levelDifficulty :: "int \<Rightarrow> int" where
  "levelDifficulty level = js_rem (level - 100) 12"

definition numClusters :: "int \<Rightarrow> int" where
  "numClusters level = 6 + \<lfloor>real_of_int (levelDifficulty level) / 2\<rfloor>"

subsection \<open>The generator\<close>

text \<open>The loop over the clusters: the blocks of each cluster are appended in turn.\<close>

fun clusters :: "(rng \<Rightarrow> Block list \<times> rng) \<Rightarrow> nat \<Rightarrow> rng \<Rightarrow> Block list" where
  "clusters f 0 st = []"
| "clusters f (Suc n) st = (let (bs, st') = f st in bs @ clusters f n st')"

definition generateBlocksForLevel :: "int \<Rightarrow> Block list" where
  "generateBlocksForLevel level =
     (if level = 1 then level1
      else if level = 2 then level2
      else if level = 3 then level3
      else if level = 4 then level4
      else if level = 5 then level5
      else if level = 6 then clusters cluster6 10 (seededRandom 12345)
      else if level \<ge> 100 then clusters cluster100 (nat (numClusters level)) (seededRandom level)
      else [])"

text \<open>The generator states at which the clusters of a run start.\<close>

fun clusterStarts :: "(rng \<Rightarrow> Block list \<times> rng) \<Rightarrow> nat \<Rightarrow> rng \<Rightarrow> rng list" where
  "clusterStarts f 0 st = []"
| "clusterStarts f (Suc n) st = st # clusterStarts f n (snd (f st))"

section \<open>Physics and collision simulator\<close>

text \<open>
  The session is the mutable state of one mounted game screen: the React state
  (\<^verbatim>\<open>gameState\<close>, \<^verbatim>\<open>score\<close>, \<^verbatim>\<open>lives\<close>) and the refs read and written by the game
  loop. State updates are taken to act at once and in program order. Drawing, the frame
  counter and the particles (which never feed back into the other state) are left out.
\<close>

record Ball =
  x :: real
  y :: real
  dx :: real
  dy :: real
  radius :: real

record Paddle =
  x :: real
  y :: real
  width :: real
  height :: real

datatype GameState = playing | paused | victory | defeat

record Session =
  levelId :: int
  gameState :: GameState
  score :: int
  lives :: int
  blocks :: "Block list"
  ball :: "Ball option"
  paddle :: Paddle
  keys :: "string set"
  mouseX :: real
  ballLaunched :: bool

subsection \<open>The steps of one tick\<close>

text \<open>Paddle: the two key-hold moves, then the assignment from the pointer position.\<close>

definition updatePaddle :: "string set \<Rightarrow> real \<Rightarrow> Paddle \<Rightarrow> Paddle" where
  "updatePaddle ks mx p =
     (let p1 = (if ''ArrowLeft'' \<in> ks
                then p\<lparr>Paddle.x := max 0 (Paddle.x p - 8)\<rparr> else p);
          p2 = (if ''ArrowRight'' \<in> ks
                then p1\<lparr>Paddle.x := min (CANVAS_WIDTH - Paddle.width p1) (Paddle.x p1 + 8)\<rparr>
                else p1)
      in p2\<lparr>Paddle.x := max 0 (min (CANVAS_WIDTH - Paddle.width p2) (mx - Paddle.width p2 / 2))\<rparr>)"

definition moveBall :: "Ball \<Rightarrow> Ball" where
  "moveBall b = b\<lparr>Ball.x := Ball.x b + dx b, Ball.y := Ball.y b + dy b\<rparr>"

definition wallCollisions :: "Ball \<Rightarrow> Ball" where
  "wallCollisions b =
     (let b1 = (if Ball.x b - radius b \<le> 0 \<or> Ball.x b + radius b \<ge> CANVAS_WIDTH
                then b\<lparr>dx := - dx b\<rparr> else b)
      in if Ball.y b1 - radius b1 \<le> 0 then b1\<lparr>dy := - dy b1\<rparr> else b1)"

definition paddleCollision :: "Paddle \<Rightarrow> Ball \<Rightarrow> Ball" where
  "paddleCollision p b =
     (if Ball.y b + radius b \<ge> Paddle.y p \<and>
         Ball.y b - radius b \<le> Paddle.y p + Paddle.height p \<and>
         Ball.x b \<ge> Paddle.x p \<and>
         Ball.x b \<le> Paddle.x p + Paddle.width p
      then
        (let b1 = b\<lparr>dy := - \<bar>dy b\<bar>\<rparr>;
             hitPos = (Ball.x b1 - Paddle.x p) / Paddle.width p;
             angle = (hitPos - 0.5) * pi / 1.5;
             speed = sqrt (dx b1 * dx b1 + dy b1 * dy b1);
             b2 = b1\<lparr>dx := sin angle * speed\<rparr>
         in b2\<lparr>dy := - \<bar>cos angle * speed\<bar>\<rparr>)
      else b)"

text \<open>The bounding boxes of the ball and of a block overlap.\<close>

definition overlaps :: "Ball \<Rightarrow> Block \<Rightarrow> bool" where
  "overlaps b block \<longleftrightarrow>
     Ball.x b + radius b \<ge> Block.x block \<and>
     Ball.x b - radius b \<le> Block.x block + Block.width block \<and>
     Ball.y b + radius b \<ge> Block.y block \<and>
     Ball.y b - radius b \<le> Block.y block + Block.height block"

text \<open>
  \<^verbatim>\<open>blocksRef.current.forEach\<close>: the blocks are visited in order; a hit kills the block,
  flips \<^verbatim>\<open>dy\<close> and adds 10 to the score, and the visit goes on with the next block.
\<close>

fun blockCollisions :: "Block list \<Rightarrow> Ball \<Rightarrow> int \<Rightarrow> Block list \<times> Ball \<times> int" where
  "blockCollisions [] b sc = ([], b, sc)"
| "blockCollisions (block # rest) b sc =
     (if \<not> alive block then
        (let (rest', b', sc') = blockCollisions rest b sc in (block # rest', b', sc'))
      else if overlaps b block then
        (let (rest', b', sc') = blockCollisions rest (b\<lparr>dy := - dy b\<rparr>) (sc + 10)
         in (block\<lparr>alive := False\<rparr> # rest', b', sc'))
      else
        (let (rest', b', sc') = blockCollisions rest b sc in (block # rest', b', sc')))"

text \<open>The update passed to \<^verbatim>\<open>setLives\<close> when the ball has left through the bottom.\<close>

definition loseLife :: "Session \<Rightarrow> Ball \<Rightarrow> Session" where
  "loseLife s b =
     (let newLives = lives s - 1
      in if newLives \<le> 0 then s\<lparr>gameState := defeat, lives := newLives\<rparr>
         else s\<lparr>ball := Some (b\<lparr>Ball.x := Paddle.x (paddle s) + Paddle.width (paddle s) / 2,
                                 Ball.y := Paddle.y (paddle s) - 10,
                                 dx := 0, dy := 0\<rparr>),
                ballLaunched := False,
                lives := newLives\<rparr>)"

definition allDead :: "Block list \<Rightarrow> bool" where
  "allDead bs = list_all (\<lambda>block. \<not> alive block) bs"

definition checkVictory :: "Session \<Rightarrow> Session" where
  "checkVictory s = (if allDead (blocks s) then s\<lparr>gameState := victory\<rparr> else s)"

subsection \<open>The game loop\<close>

text \<open>The branch of a launched ball: move, collide, then test the bottom boundary.\<close>

definition launchedStep :: "Session \<Rightarrow> Ball \<Rightarrow> Session" where
  "launchedStep s b =
     (let b1 = paddleCollision (paddle s) (wallCollisions (moveBall b));
          (blocks', b2, score') = blockCollisions (blocks s) b1 (score s);
          s' = s\<lparr>blocks := blocks', ball := Some b2, score := score'\<rparr>
      in if Ball.y b2 - radius b2 > CANVAS_HEIGHT then loseLife s' b2 else s')"

text \<open>\<^verbatim>\<open>if (ball)\<close>: a launched ball is stepped, a waiting ball follows the paddle.\<close>

definition updateBall :: "Session \<Rightarrow> Session" where
  "updateBall s =
     (case ball s of
        None \<Rightarrow> s
      | Some b \<Rightarrow>
          if ballLaunched s then launchedStep s b
          else s\<lparr>ball := Some (b\<lparr>Ball.x := Paddle.x (paddle s) + Paddle.width (paddle s) / 2,
                                  Ball.y := Paddle.y (paddle s) - 10\<rparr>)\<rparr>)"

definition gameLoop :: "Session \<Rightarrow> Session" where
  "gameLoop s =
     (if gameState s \<noteq> playing then s
      else checkVictory
             (updateBall (s\<lparr>paddle := updatePaddle (keys s) (mouseX s) (paddle s)\<rparr>)))"

subsection \<open>Input handlers, pause and restart\<close>

text \<open>
  The launch shared by the space key and the click; \<open>rnd\<close> is the value returned by
  \<^verbatim>\<open>Math.random()\<close>.
\<close>

definition launch :: "real \<Rightarrow> Session \<Rightarrow> Session" where
  "launch rnd s =
     (case ball s of
        None \<Rightarrow> s
      | Some b \<Rightarrow>
          if \<not> ballLaunched s then
            (let angle = (rnd - 0.5) * pi / 3;
                 speed = 4
             in s\<lparr>ball := Some (b\<lparr>dx := sin angle * speed, dy := - cos angle * speed\<rparr>),
                  ballLaunched := True\<rparr>)
          else s)"

definition handleKeyDown :: "string \<Rightarrow> real \<Rightarrow> Session \<Rightarrow> Session" where
  "handleKeyDown key rnd s =
     (let s1 = s\<lparr>keys := insert key (keys s)\<rparr>
      in if key = '' '' then launch rnd s1 else s1)"

definition handleKeyUp :: "string \<Rightarrow> Session \<Rightarrow> Session" where
  "handleKeyUp key s = s\<lparr>keys := keys s - {key}\<rparr>"

definition handleMouseMove :: "real \<Rightarrow> Session \<Rightarrow> Session" where
  "handleMouseMove mx s = s\<lparr>mouseX := mx\<rparr>"

definition handleClick :: "real \<Rightarrow> Session \<Rightarrow> Session" where
  "handleClick rnd s = launch rnd s"

definition ballOnPaddle :: "Paddle \<Rightarrow> Ball" where
  "ballOnPaddle p =
     \<lparr>Ball.x = Paddle.x p + Paddle.width p / 2, Ball.y = Paddle.y p - 10,
      dx = 0, dy = 0, radius = 8\<rparr>"

definition handleRestart :: "Session \<Rightarrow> Session" where
  "handleRestart s =
     s\<lparr>score := 0, lives := 3, gameState := playing, ballLaunched := False,
       blocks := generateBlocksForLevel (levelId s),
       ball := Some (ballOnPaddle (paddle s))\<rparr>"

definition togglePause :: "Session \<Rightarrow> Session" where
  "togglePause s =
     (if gameState s = playing then s\<lparr>gameState := paused\<rparr>
      else if gameState s = paused then s\<lparr>gameState := playing\<rparr>
      else s)"

text \<open>The session when the screen has been mounted for a level and its effects have run.\<close>

definition initSession :: "int \<Rightarrow> Session" where
  "initSession level =
     (let p = \<lparr>Paddle.x = 340, Paddle.y = 560, Paddle.width = 120, Paddle.height = 15\<rparr>
      in \<lparr>levelId = level, gameState = playing, score = 0, lives = 3,
          blocks = generateBlocksForLevel level,
          ball = Some (ballOnPaddle p),
          paddle = p, keys = {}, mouseX = 400, ballLaunched = False\<rparr>)"

text \<open>
  The states a session for a level can be in: the game loop and the handlers, in any
  order. \<^verbatim>\<open>Math.random()\<close> returns a number in \<open>[0, 1)\<close>.
\<close>

inductive reachable :: "int \<Rightarrow> Session \<Rightarrow> bool" for level :: int where
  start: "reachable level (initSession level)"
| tick: "reachable level s \<Longrightarrow> reachable level (gameLoop s)"
| keyDown: "reachable level s \<Longrightarrow> 0 \<le> rnd \<Longrightarrow> rnd < 1
              \<Longrightarrow> reachable level (handleKeyDown key rnd s)"
| keyUp: "reachable level s \<Longrightarrow> reachable level (handleKeyUp key s)"
| mouseMove: "reachable level s \<Longrightarrow> reachable level (handleMouseMove mx s)"
| click: "reachable level s \<Longrightarrow> 0 \<le> rnd \<Longrightarrow> rnd < 1
              \<Longrightarrow> reachable level (handleClick rnd s)"
| restart: "reachable level s \<Longrightarrow> reachable level (handleRestart s)"
| pause: "reachable level s \<Longrightarrow> reachable level (togglePause s)"

text \<open>Quantities the properties below are stated with.\<close>

definition speed :: "Ball \<Rightarrow> real" where
  "speed b = sqrt (dx b * dx b + dy b * dy b)"

definition clamp :: "real \<Rightarrow> real \<Rightarrow> real \<Rightarrow> real" where
  "clamp v lo hi = (if v < lo then lo else if v > hi then hi else v)"

definition insideMargins :: "Block \<Rightarrow> bool" where
  "insideMargins block \<longleftrightarrow>
     Block.x block \<ge> margin \<and> Block.x block + Block.width block \<le> CANVAS_WIDTH - margin \<and>
     Block.y block \<ge> margin \<and> Block.y block + Block.height block \<le> maxY"

text \<open>The ball's top edge is below the canvas bottom once the ball has been moved.\<close>

definition exitsBottom :: "Ball \<Rightarrow> bool" where
  "exitsBottom b \<longleftrightarrow> Ball.y (moveBall b) - radius (moveBall b) > CANVAS_HEIGHT"

text \<open>An alive block whose box overlaps the box of the moved ball, and what a tick makes of
  a block.\<close>

definition struck :: "Ball \<Rightarrow> Block \<Rightarrow> bool" where
  "struck b block \<longleftrightarrow> alive block \<and> overlaps (moveBall b) block"

definition kill :: "Ball \<Rightarrow> Block \<Rightarrow> Block" where
  "kill b block = (if struck b block then block\<lparr>alive := False\<rparr> else block)"

text \<open>The test and the reflection angle of the paddle collision.\<close>

definition hitsPaddle :: "Paddle \<Rightarrow> Ball \<Rightarrow> bool" where
  "hitsPaddle p b \<longleftrightarrow>
     Ball.y b + radius b \<ge> Paddle.y p \<and>
     Ball.y b - radius b \<le> Paddle.y p + Paddle.height p \<and>
     Ball.x b \<ge> Paddle.x p \<and>
     Ball.x b \<le> Paddle.x p + Paddle.width p"

definition bounceAngle :: "Paddle \<Rightarrow> Ball \<Rightarrow> real" where
  "bounceAngle p b = ((Ball.x b - Paddle.x p) / Paddle.width p - 0.5) * pi / 1.5"

section \<open>Sessions\<close>

text \<open>
  What holds of the session in every state it can be in: the blocks lie inside the
  playable rectangle, the paddle keeps its place and size, there is a ball of radius 8,
  the lives stay between 0 and 3 and are 0 exactly in the state \<open>defeat\<close>, the state
  \<open>victory\<close> has no alive block, and a session without alive blocks that is not yet in
  the state \<open>victory\<close> still has its ball at the height of the paddle.
\<close>

definition sessionInv :: "Session \<Rightarrow> bool" where
  "sessionInv s \<longleftrightarrow>
     list_all insideMargins (blocks s)
   \<and> Paddle.y (paddle s) = 560 \<and> Paddle.width (paddle s) = 120
   \<and> ball s \<noteq> None \<and> radius (the (ball s)) = 8
   \<and> (allDead (blocks s) \<and> gameState s \<noteq> victory
        \<longrightarrow> Ball.y (the (ball s)) = 550 \<and> dy (the (ball s)) \<le> 0)
   \<and> 0 \<le> lives s \<and> lives s \<le> 3 \<and> (gameState s = defeat \<longleftrightarrow> lives s = 0)
   \<and> (gameState s = victory \<longrightarrow> allDead (blocks s))
   \<and> (allDead (blocks s) \<longrightarrow> gameState s \<noteq> defeat)"

text \<open>The events of a session, and a session run through a list of events.\<close>

datatype Event =
  Tick | KeyDown string real | KeyUp string | MouseMove real | Click real | TogglePause | Restart

fun fire :: "Event \<Rightarrow> Session \<Rightarrow> Session" where
  "fire Tick s = gameLoop s"
| "fire (KeyDown key rnd) s = handleKeyDown key rnd s"
| "fire (KeyUp key) s = handleKeyUp key s"
| "fire (MouseMove mx) s = handleMouseMove mx s"
| "fire (Click rnd) s = handleClick rnd s"
| "fire TogglePause s = togglePause s"
| "fire Restart s = handleRestart s"

fun run :: "Event list \<Rightarrow> Session \<Rightarrow> Session" where
  "run [] s = s"
| "run (e # es) s = run es (fire e s)"

text \<open>
  A session on level 1 that loses a life: the pointer is moved to the left edge, the ball
  is launched straight up (\<^verbatim>\<open>Math.random()\<close> returns one half), and the game loop runs.
  \<open>aloft\<close> describes the states of that flight.
\<close>

definition aloft :: "real \<Rightarrow> real \<Rightarrow> real \<Rightarrow> Block list \<Rightarrow> int \<Rightarrow> Session" where
  "aloft px py v bs sc =
     \<lparr>levelId = 1, gameState = playing, score = sc, lives = 3, blocks = bs,
      ball = Some \<lparr>Ball.x = 400, Ball.y = py, dx = 0, dy = v, radius = 8\<rparr>,
      paddle = \<lparr>Paddle.x = px, Paddle.y = 560, Paddle.width = 120, Paddle.height = 15\<rparr>,
      keys = {}, mouseX = 0, ballLaunched = True\<rparr>"

definition straightUp :: Session where
  "straightUp = handleClick (1 / 2) (handleMouseMove 0 (initSession 1))"

text \<open>
  The same session played on until the last life: after a lost life the pointer is moved
  to the right edge, the waiting ball follows the paddle for one tick, the ball is
  launched straight up again and the pointer is moved back to the left edge. \<open>flying\<close>
  and \<open>resting\<close> describe the states with a launched and with a waiting ball.
\<close>

definition flying ::
  "int \<Rightarrow> real \<Rightarrow> real \<Rightarrow> real \<Rightarrow> real \<Rightarrow> real \<Rightarrow> Block list \<Rightarrow> int \<Rightarrow> Session" where
  "flying lv mx px bx py v bs sc =
     \<lparr>levelId = 1, gameState = playing, score = sc, lives = lv, blocks = bs,
      ball = Some \<lparr>Ball.x = bx, Ball.y = py, dx = 0, dy = v, radius = 8\<rparr>,
      paddle = \<lparr>Paddle.x = px, Paddle.y = 560, Paddle.width = 120, Paddle.height = 15\<rparr>,
      keys = {}, mouseX = mx, ballLaunched = True\<rparr>"

definition resting :: "int \<Rightarrow> real \<Rightarrow> real \<Rightarrow> real \<Rightarrow> Block list \<Rightarrow> int \<Rightarrow> Session" where
  "resting lv mx px bx bs sc =
     \<lparr>levelId = 1, gameState = playing, score = sc, lives = lv, blocks = bs,
      ball = Some \<lparr>Ball.x = bx, Ball.y = 550, dx = 0, dy = 0, radius = 8\<rparr>,
      paddle = \<lparr>Paddle.x = px, Paddle.y = 560, Paddle.width = 120, Paddle.height = 15\<rparr>,
      keys = {}, mouseX = mx, ballLaunched = False\<rparr>"

definition nextLife :: "Session \<Rightarrow> Session" where
  "nextLife s =
     (gameLoop ^^ 286)
       (handleMouseMove 0 (handleClick (1 / 2) (gameLoop (handleMouseMove 800 s))))"

definition lastLife :: Session where
  "lastLife = nextLife (gameLoop (nextLife (gameLoop ((gameLoop ^^ 204) straightUp))))"

section \<open>Properties of the seeded random source\<close>

lemma js_rem_nonneg: "0 \<le> a \<Longrightarrow> 0 < b \<Longrightarrow> js_rem a b = a mod b"
  by (cases "a = 0") (simp_all add: js_rem_def)

lemma random_next_state: "0 \<le> s \<Longrightarrow> snd (random_next s) = lcg s"
  by (simp add: random_next_def lcg_def Let_def js_rem_nonneg)

lemma random_next_value: "fst (random_next s) = real_of_int (snd (random_next s)) / 2 ^ 32"
  by (simp add: random_next_def Let_def)

lemma lcg_range: "0 \<le> lcg s \<and> lcg s < 2 ^ 32"
  by (simp add: lcg_def)

lemma random_next_range:
  assumes "0 \<le> s"
  shows "0 \<le> fst (random_next s)" and "fst (random_next s) < 1"
    and "0 \<le> snd (random_next s)" and "snd (random_next s) < 2 ^ 32"
proof -
  have st: "snd (random_next s) = lcg s"
    using assms by (rule random_next_state)
  from lcg_range [of s] show "0 \<le> snd (random_next s)" and "snd (random_next s) < 2 ^ 32"
    by (simp_all add: st)
  from lcg_range [of s] show "0 \<le> fst (random_next s)"
    by (simp add: random_next_value st)
  from lcg_range [of s] have "real_of_int (lcg s) < 2 ^ 32"
    by (metis of_int_less_iff of_int_numeral of_int_power)
  then show "fst (random_next s) < 1"
    by (simp add: random_next_value st)
qed

lemma state_after_lcg: "0 \<le> s \<Longrightarrow> state_after n s = (lcg ^^ n) s"
proof (induction n arbitrary: s)
  case 0
  show ?case by simp
next
  case (Suc n)
  have "0 \<le> lcg s" using lcg_range [of s] by simp
  with Suc show ?case
    by (simp add: random_next_state funpow_swap1)
qed

lemma state_after_step: "state_after (Suc k) s = snd (random_next (state_after k s))"
  by (induction k arbitrary: s) simp_all

lemma state_after_nonneg: "0 \<le> s \<Longrightarrow> 0 \<le> state_after n s"
proof (induction n arbitrary: s)
  case 0
  then show ?case by simp
next
  case (Suc n)
  then show ?case using random_next_range(3) [of s] by simp
qed

lemma draws_length: "length (draws n s) = n"
  by (induction n arbitrary: s) (simp_all add: split_beta)

lemma draws_nth:
  "k < n \<Longrightarrow> draws n s ! k = fst (random_next (state_after k s))"
proof (induction n arbitrary: s k)
  case 0
  then show ?case by simp
next
  case (Suc n)
  show ?case
  proof (cases k)
    case 0
    then show ?thesis by (simp add: split_beta)
  next
    case (Suc j)
    with Suc.prems have "j < n" by simp
    from Suc.IH [OF this] Suc show ?thesis by (simp add: split_beta)
  qed
qed

lemma lcg_steps:
  assumes "0 \<le> seed" and "seed < 2 ^ 32" and "k < n"
  shows "state_after (Suc k) (seededRandom seed)
           = (state_after k (seededRandom seed) * 1664525 + 1013904223) mod 2 ^ 32"
    and "state_after k (seededRandom seed) * 1664525 + 1013904223 < 2 ^ 53"
    and "draws n (seededRandom seed) ! k
           = real_of_int (state_after (Suc k) (seededRandom seed)) / 2 ^ 32"
    and "0 \<le> draws n (seededRandom seed) ! k \<and> draws n (seededRandom seed) ! k < 1"
    and "draws n (seededRandom seed) ! k = real_of_int ((lcg ^^ Suc k) seed) / 2 ^ 32"
    and "length (draws n (seededRandom seed)) = n"
proof -
  let ?s = "state_after k (seededRandom seed)"
  have nn: "0 \<le> ?s"
    using assms(1) by (simp add: seededRandom_def state_after_nonneg)
  have step: "state_after (Suc k) (seededRandom seed) = snd (random_next ?s)"
    by (rule state_after_step)
  have "snd (random_next ?s) = (?s * 1664525 + 1013904223) mod 2 ^ 32"
    using random_next_state [OF nn] by (simp only: lcg_def)
  then show "state_after (Suc k) (seededRandom seed) = (?s * 1664525 + 1013904223) mod 2 ^ 32"
    by (simp only: step)
  have "?s < 2 ^ 32"
  proof (cases k)
    case 0
    then show ?thesis using assms(2) by (simp add: seededRandom_def)
  next
    case (Suc j)
    have "?s = (lcg ^^ k) seed"
      using assms(1) by (simp add: seededRandom_def state_after_lcg)
    also have "\<dots> = lcg ((lcg ^^ j) seed)" by (simp add: Suc)
    finally show ?thesis using lcg_range [of "(lcg ^^ j) seed"] by simp
  qed
  then have "?s * 1664525 \<le> (2 ^ 32 - 1) * 1664525" by simp
  then show "?s * 1664525 + 1013904223 < 2 ^ 53" by simp
  have nth: "draws n (seededRandom seed) ! k = fst (random_next ?s)"
    using assms(3) by (rule draws_nth)
  show "draws n (seededRandom seed) ! k
          = real_of_int (state_after (Suc k) (seededRandom seed)) / 2 ^ 32"
    by (simp only: nth step random_next_value)
  show "0 \<le> draws n (seededRandom seed) ! k \<and> draws n (seededRandom seed) ! k < 1"
    using random_next_range(1,2) [OF nn] by (simp add: nth)
  have "state_after (Suc k) (seededRandom seed) = (lcg ^^ Suc k) seed"
    using assms(1) by (simp only: seededRandom_def state_after_lcg)
  then show "draws n (seededRandom seed) ! k = real_of_int ((lcg ^^ Suc k) seed) / 2 ^ 32"
    by (simp only: nth step random_next_value)
  show "length (draws n (seededRandom seed)) = n"
    by (rule draws_length)
qed

text \<open>
  Claim C4. For a seed that is a non-negative 32-bit integer, every call of the generator
  replaces the state \<open>s\<close> by \<open>(s * 1664525 + 1013904223) mod 2^32\<close> and returns the new
  state divided by \<open>2^32\<close>, a number in \<open>[0, 1)\<close>. The product and sum stay below \<open>2^53\<close>,
  so the update is exact on JavaScript numbers. The \<open>k\<close>-th number drawn is determined by
  the seed alone (it is the \<open>k+1\<close>-fold update of the seed divided by \<open>2^32\<close>), so two
  generators built from the same seed return the same sequence.
\<close>

theorem seededRandom_is_lcg:
  assumes "0 \<le> seed" and "seed < 2 ^ 32" and "k < n"
  shows "state_after (Suc k) (seededRandom seed)
           = (state_after k (seededRandom seed) * 1664525 + 1013904223) mod 2 ^ 32
       \<and> state_after k (seededRandom seed) * 1664525 + 1013904223 < 2 ^ 53
       \<and> draws n (seededRandom seed) ! k
           = real_of_int (state_after (Suc k) (seededRandom seed)) / 2 ^ 32
       \<and> 0 \<le> draws n (seededRandom seed) ! k \<and> draws n (seededRandom seed) ! k < 1
       \<and> draws n (seededRandom seed) ! k = real_of_int ((lcg ^^ Suc k) seed) / 2 ^ 32
       \<and> length (draws n (seededRandom seed)) = n"
  using lcg_steps [OF assms] by (intro conjI) (assumption | erule conjunct1 | erule conjunct2)+

theorem seededRandom_is_lcg_witness:
  "(0::int) \<le> 101 \<and> (101::int) < 2 ^ 32 \<and> (0::nat) < 1
   \<and> state_after (Suc 0) (seededRandom 101) = 1182021248
   \<and> draws 1 (seededRandom 101) ! 0 = 1182021248 / 4294967296
   \<and> draws 1 (seededRandom 101) ! 0 < 1"
  using seededRandom_is_lcg [of 101 0 1]
  by (simp add: seededRandom_def random_next_def js_rem_def)

section \<open>Properties of the level layout generator\<close>

lemma candidate_inside: "b \<in> set (candidate c px py) \<Longrightarrow> insideMargins b"
  by (auto simp: candidate_def inBounds_def insideMargins_def newBlock_def split: if_splits)

lemma candidate_alive: "b \<in> set (candidate c px py) \<Longrightarrow> alive b"
  by (auto simp: candidate_def newBlock_def split: if_splits)

lemma tight_candidate:
  assumes "\<And>c px py b. b \<in> set (candidate c px py) \<Longrightarrow> P b"
  shows "b \<in> set (tight c gap) \<Longrightarrow> P b"
  by (auto simp: tight_def Let_def dest: assms)

lemma line_candidate:
  assumes "\<And>c px py b. b \<in> set (candidate c px py) \<Longrightarrow> P b"
  shows "b \<in> set (line c angle spacing freq amp) \<Longrightarrow> P b"
  by (auto simp: line_def Let_def dest: assms)

lemma arc_candidate:
  assumes "\<And>c px py b. b \<in> set (candidate c px py) \<Longrightarrow> P b"
  shows "b \<in> set (arc c arcRadius startAngle arcLength) \<Longrightarrow> P b"
  by (auto simp: arc_def Let_def dest: assms)

lemma spiral_candidate:
  assumes "\<And>c px py b. b \<in> set (candidate c px py) \<Longrightarrow> P b"
  shows "b \<in> set (spiral c spiralTightness) \<Longrightarrow> P b"
  by (auto simp: spiral_def Let_def dest: assms)

lemma scattered_candidate:
  assumes "\<And>c px py b. b \<in> set (candidate c px py) \<Longrightarrow> P b"
  shows "b \<in> set (fst (scattered c rad jitter lo spread is st)) \<Longrightarrow> P b"
  by (induction "is" arbitrary: st) (auto simp: split_beta Let_def dest: assms)

lemma cluster6_candidate:
  assumes "\<And>c px py b. b \<in> set (candidate c px py) \<Longrightarrow> P b"
  shows "b \<in> set (fst (cluster6 st)) \<Longrightarrow> P b"
  unfolding cluster6_def Let_def split_beta
  by (auto split: if_splits
        intro: tight_candidate [where P = P, OF assms] line_candidate [where P = P, OF assms]
              arc_candidate [where P = P, OF assms] scattered_candidate [where P = P, OF assms])

lemma cluster100_candidate:
  assumes "\<And>c px py b. b \<in> set (candidate c px py) \<Longrightarrow> P b"
  shows "b \<in> set (fst (cluster100 st)) \<Longrightarrow> P b"
  unfolding cluster100_def Let_def split_beta
  by (auto split: if_splits
        intro: tight_candidate [where P = P, OF assms] line_candidate [where P = P, OF assms]
              arc_candidate [where P = P, OF assms] scattered_candidate [where P = P, OF assms]
              spiral_candidate [where P = P, OF assms])

lemma clusters_all:
  assumes "\<And>st b. b \<in> set (fst (f st)) \<Longrightarrow> P b"
  shows "b \<in> set (clusters f n st) \<Longrightarrow> P b"
  by (induction n arbitrary: st) (auto simp: split_beta dest: assms)

lemma level1_inside: "list_all insideMargins level1"
  by (simp add: level1_def insideMargins_def newBlock_def margin_def maxY_def CANVAS_WIDTH_def upt_rec)

lemma level1_alive: "list_all alive level1"
  by (simp add: level1_def newBlock_def upt_rec)

lemma level2_alive: "list_all alive level2"
  by (simp add: level2_def newBlock_def Let_def list_all_iff)

lemma level3_alive: "list_all alive level3"
  by (simp add: level3_def newBlock_def Let_def upt_rec)

lemma level4_alive: "list_all alive level4"
  by (simp add: level4_def newBlock_def Let_def upt_rec)

lemma level5_alive: "list_all alive level5"
  by (simp add: level5_def newBlock_def Let_def upt_rec)

lemma level3_inside: "list_all insideMargins level3"
  by (simp add: level3_def insideMargins_def newBlock_def margin_def maxY_def CANVAS_WIDTH_def Let_def upt_rec)

lemma level4_inside: "list_all insideMargins level4"
  by (simp add: level4_def insideMargins_def newBlock_def margin_def maxY_def CANVAS_WIDTH_def Let_def upt_rec)

lemma level5_inside: "list_all insideMargins level5"
  by (simp add: level5_def insideMargins_def newBlock_def margin_def maxY_def CANVAS_WIDTH_def Let_def upt_rec)

lemma trig_bounds:
  fixes a r c :: real
  assumes "0 \<le> r"
  shows "c - r \<le> c + cos a * r" and "c + cos a * r \<le> c + r"
    and "c - r \<le> c + sin a * r" and "c + sin a * r \<le> c + r"
proof -
  have "\<bar>cos a\<bar> * r \<le> 1 * r" "\<bar>sin a\<bar> * r \<le> 1 * r"
    by (rule mult_right_mono, simp, rule assms)+
  then have "\<bar>cos a * r\<bar> \<le> r" "\<bar>sin a * r\<bar> \<le> r"
    using assms by (simp_all add: abs_mult)
  then show "c - r \<le> c + cos a * r" and "c + cos a * r \<le> c + r"
    and "c - r \<le> c + sin a * r" and "c + sin a * r \<le> c + r"
    by linarith+
qed

lemma level2_inside: "list_all insideMargins level2"
proof -
  have "insideMargins (newBlock (CANVAS_WIDTH / 2 + cos a * 120 - 70 / 2)
                                (200 + sin a * 120 - 25 / 2) 70 25 col)" for a :: real and col
  proof -
    have "(50::real) \<le> 800 / 2 + cos a * 120 - 70 / 2"
      and "800 / 2 + cos a * 120 - 70 / 2 + 70 \<le> (800::real) - 50"
      and "(50::real) \<le> 200 + sin a * 120 - 25 / 2"
      and "200 + sin a * 120 - 25 / 2 + 25 \<le> (420::real)"
      using trig_bounds [of 120 0 a] by linarith+
    then show ?thesis
      unfolding insideMargins_def newBlock_def CANVAS_WIDTH_def margin_def maxY_def by simp
  qed
  then show ?thesis
    by (simp add: level2_def Let_def list_all_iff)
qed

lemma level1_list: "generateBlocksForLevel 1 = level1"
  by (simp add: generateBlocksForLevel_def)

lemma generated_inside:
  assumes "b \<in> set (generateBlocksForLevel level)"
  shows "insideMargins b"
proof -
  have six: "b \<in> set (clusters cluster6 n st) \<Longrightarrow> insideMargins b" for n st
    by (rule clusters_all [where f = cluster6])
       (rule cluster6_candidate [where P = insideMargins], rule candidate_inside)
  have hundred: "b \<in> set (clusters cluster100 n st) \<Longrightarrow> insideMargins b" for n st
    by (rule clusters_all [where f = cluster100])
       (rule cluster100_candidate [where P = insideMargins], rule candidate_inside)
  from assms six hundred level1_inside level2_inside level3_inside level4_inside level5_inside
  show ?thesis
    by (auto simp: generateBlocksForLevel_def list_all_iff split: if_splits)
qed

lemma generated_alive:
  assumes "b \<in> set (generateBlocksForLevel level)"
  shows "alive b"
proof -
  have six: "b \<in> set (clusters cluster6 n st) \<Longrightarrow> alive b" for n st
    by (rule clusters_all [where f = cluster6])
       (rule cluster6_candidate [where P = alive], rule candidate_alive)
  have hundred: "b \<in> set (clusters cluster100 n st) \<Longrightarrow> alive b" for n st
    by (rule clusters_all [where f = cluster100])
       (rule cluster100_candidate [where P = alive], rule candidate_alive)
  from assms six hundred level1_alive level2_alive level3_alive level4_alive level5_alive
  show ?thesis
    by (auto simp: generateBlocksForLevel_def list_all_iff split: if_splits)
qed

text \<open>
  Claim C2. Every block returned by the generator, for every level identifier, lies inside
  the playable rectangle: \<open>x \<ge> margin\<close>, \<open>x + width \<le> CANVAS_WIDTH - margin\<close>,
  \<open>y \<ge> margin\<close> and \<open>y + height \<le> maxY\<close>, with \<open>margin = 50\<close>, \<open>CANVAS_WIDTH = 800\<close>
  and \<open>maxY = 420\<close>. The procedural layouts owe it to their filter, the layouts of the
  levels 1 to 5 to their coordinates.
\<close>

theorem boundary_safety:
  assumes "b \<in> set (generateBlocksForLevel level)"
  shows "Block.x b \<ge> margin \<and> Block.x b + Block.width b \<le> CANVAS_WIDTH - margin
       \<and> Block.y b \<ge> margin \<and> Block.y b + Block.height b \<le> maxY
       \<and> margin = 50 \<and> CANVAS_WIDTH = 800 \<and> maxY = 420"
  using generated_inside [OF assms]
  by (simp add: insideMargins_def margin_def CANVAS_WIDTH_def maxY_def)

theorem boundary_safety_witness:
  "newBlock 50 50 60 25 ''#3b82f6'' \<in> set (generateBlocksForLevel 1)
   \<and> Block.x (newBlock 50 50 60 25 ''#3b82f6'') + Block.width (newBlock 50 50 60 25 ''#3b82f6'')
       \<le> CANVAS_WIDTH - margin"
proof -
  have m: "newBlock 50 50 60 25 ''#3b82f6'' \<in> set (generateBlocksForLevel 1)"
    by (simp add: level1_list level1_def upt_rec)
  from boundary_safety [OF m] m show ?thesis
    by (simp add: margin_def CANVAS_WIDTH_def maxY_def)
qed

subsection \<open>Evaluating the procedural layouts\<close>

lemma random_next_numeral:
  "random_next (numeral k)
     = (real_of_int ((numeral k * 1664525 + 1013904223) mod 4294967296) / 4294967296,
        (numeral k * 1664525 + 1013904223) mod 4294967296)"
  by (simp add: random_next_def Let_def js_rem_nonneg)

lemmas header_eval =
  split_beta random_next_numeral margin_def maxY_def CANVAS_WIDTH_def
  lookup_def patterns100_def pickColor_def colors_def

lemma header100_101:
  "header100 101 =
     (\<lparr>clusterX = 3378359575 / 16777216, clusterY = 362290673305 / 2147483648,
       pattern = Some ''spiral'', blockCount = 6, color = ''#ec4899'',
       blockWidth = 40600434575 / 1073741824, blockHeight = 28759811727 / 1073741824\<rparr>,
      3772983558)"
  by (simp add: header100_def header_eval)

lemma header100_102:
  "header100 102 =
     (\<lparr>clusterX = 432887769975 / 2147483648, clusterY = 51860322935 / 268435456,
       pattern = Some ''arc'', blockCount = 6, color = ''#06b6d4'',
       blockWidth = 14164350795 / 268435456, blockHeight = 45301236759 / 2147483648\<rparr>,
      1329306219)"
  by (simp add: header100_def header_eval)

lemma spiral_first:
  assumes "0 < blockCount c"
  shows "\<exists>rest. spiral c t = candidate c (clusterX c + 10) (clusterY c) @ rest"
proof -
  from assms have "[0..<nat (blockCount c)] = 0 # [Suc 0..<nat (blockCount c)]"
    by (simp add: upt_conv_Cons)
  then show ?thesis
    by (simp add: spiral_def Let_def)
qed

lemma arc_first:
  assumes "0 < blockCount c"
  shows "\<exists>rest. arc c R a0 len
           = candidate c (clusterX c + cos a0 * R) (clusterY c + sin a0 * R) @ rest"
proof -
  from assms have "[0..<nat (blockCount c)] = 0 # [Suc 0..<nat (blockCount c)]"
    by (simp add: upt_conv_Cons)
  then show ?thesis
    by (simp add: arc_def Let_def)
qed

lemma clusters_first:
  "0 < n \<Longrightarrow> \<exists>rest. clusters f n st = fst (f st) @ rest"
  by (cases n) (simp_all add: split_beta)

lemma numClusters_101: "nat (numClusters 101) = 6"
  by (simp add: numClusters_def levelDifficulty_def js_rem_def)

lemma numClusters_102: "nat (numClusters 102) = 7"
  by (simp add: numClusters_def levelDifficulty_def js_rem_def)

lemma level101_head:
  "\<exists>rest. generateBlocksForLevel 101
     = newBlock (3378359575 / 16777216 + 10) (362290673305 / 2147483648)
         (40600434575 / 1073741824) (28759811727 / 1073741824) ''#ec4899'' # rest"
proof -
  let ?c = "fst (header100 101)"
  have c: "cluster100 101 = (spiral ?c (3 + fst (random_next 3772983558) * 4),
                             snd (random_next 3772983558))"
    by (simp add: cluster100_def header100_101 split_beta Let_def)
  have "0 < blockCount ?c" by (simp add: header100_101)
  from spiral_first [OF this] obtain r1 where
    "spiral ?c (3 + fst (random_next 3772983558) * 4)
       = candidate ?c (clusterX ?c + 10) (clusterY ?c) @ r1" by blast
  moreover have "candidate ?c (clusterX ?c + 10) (clusterY ?c)
      = [newBlock (3378359575 / 16777216 + 10) (362290673305 / 2147483648)
         (40600434575 / 1073741824) (28759811727 / 1073741824) ''#ec4899'']"
    by (simp add: header100_101 candidate_def inBounds_def margin_def maxY_def CANVAS_WIDTH_def)
  moreover obtain r2 where
    "clusters cluster100 (nat (numClusters 101)) 101 = fst (cluster100 101) @ r2"
    using clusters_first [of "nat (numClusters 101)" cluster100 101]
    by (auto simp: numClusters_101)
  ultimately show ?thesis
    by (simp add: generateBlocksForLevel_def seededRandom_def c)
qed

lemma candidate_round:
  assumes "0 \<le> R"
    and "margin \<le> clusterX c - R" and "clusterX c + R + blockWidth c \<le> CANVAS_WIDTH - margin"
    and "margin \<le> clusterY c - R" and "clusterY c + R + blockHeight c \<le> maxY"
  shows "candidate c (clusterX c + cos a * R) (clusterY c + sin a * R)
           = [newBlock (clusterX c + cos a * R) (clusterY c + sin a * R)
                (blockWidth c) (blockHeight c) (Cluster.color c)]"
proof -
  have "inBounds (clusterX c + cos a * R) (clusterY c + sin a * R) (blockWidth c) (blockHeight c)"
    unfolding inBounds_def
    using trig_bounds [OF assms(1), of "clusterX c" a] trig_bounds [OF assms(1), of "clusterY c" a]
      assms(2-5)
    by linarith
  then show ?thesis by (simp add: candidate_def)
qed

lemma level102_head:
  "\<exists>px py rest. generateBlocksForLevel 102
     = newBlock px py (14164350795 / 268435456) (45301236759 / 2147483648) ''#06b6d4'' # rest"
proof -
  let ?c = "fst (header100 102)"
  let ?R = "35 + fst (random_next 1329306219) * 50"
  let ?a = "fst (random_next (snd (random_next 1329306219))) * pi"
  let ?len = "pi * 0.5 + fst (random_next (snd (random_next (snd (random_next 1329306219))))) * pi * 0.6"
  have c: "fst (cluster100 102) = arc ?c ?R ?a ?len"
    by (simp add: cluster100_def header100_102 split_beta Let_def)
  have "0 < blockCount ?c" by (simp add: header100_102)
  from arc_first [OF this] obtain r1 where
    "arc ?c ?R ?a ?len
       = candidate ?c (clusterX ?c + cos ?a * ?R) (clusterY ?c + sin ?a * ?R) @ r1" by blast
  moreover have "candidate ?c (clusterX ?c + cos ?a * ?R) (clusterY ?c + sin ?a * ?R)
      = [newBlock (clusterX ?c + cos ?a * ?R) (clusterY ?c + sin ?a * ?R)
                (blockWidth ?c) (blockHeight ?c) (Cluster.color ?c)]"
    by (rule candidate_round)
       (simp_all add: header100_102 random_next_numeral margin_def maxY_def CANVAS_WIDTH_def)
  moreover obtain r2 where
    "clusters cluster100 (nat (numClusters 102)) 102 = fst (cluster100 102) @ r2"
    using clusters_first [of "nat (numClusters 102)" cluster100 102]
    by (auto simp: numClusters_102)
  ultimately have "generateBlocksForLevel 102
      = newBlock (clusterX ?c + cos ?a * ?R) (clusterY ?c + sin ?a * ?R)
                (blockWidth ?c) (blockHeight ?c) (Cluster.color ?c) # (r1 @ r2)"
    by (simp add: generateBlocksForLevel_def seededRandom_def c)
  then show ?thesis
    by (simp only: header100_102 fst_conv Cluster.simps) blast
qed

text \<open>
  Claim C1. The generator is a function of the level identifier alone: it reads no state
  besides its argument and builds its random source afresh from the seed on every call.
  Two calls for one level therefore return block lists of the same length that agree, in
  order, on \<open>x\<close>, \<open>y\<close>, \<open>width\<close>, \<open>height\<close>, \<open>alive\<close> and \<open>color\<close>; so do two
  generations for level 101. The generation for level 102 differs from the one for
  level 101: their first blocks have different widths.
\<close>

theorem generator_deterministic:
  "list_all2 (\<lambda>a b. Block.x a = Block.x b \<and> Block.y a = Block.y b
                     \<and> Block.width a = Block.width b \<and> Block.height a = Block.height b
                     \<and> alive a = alive b \<and> Block.color a = Block.color b)
     (generateBlocksForLevel level) (generateBlocksForLevel level)
   \<and> length (generateBlocksForLevel level) = length (generateBlocksForLevel level)
   \<and> generateBlocksForLevel 101 = generateBlocksForLevel 101
   \<and> generateBlocksForLevel 102 \<noteq> generateBlocksForLevel 101"
proof -
  obtain r1 where a: "generateBlocksForLevel 101
     = newBlock (3378359575 / 16777216 + 10) (362290673305 / 2147483648)
         (40600434575 / 1073741824) (28759811727 / 1073741824) ''#ec4899'' # r1"
    using level101_head by blast
  obtain px py r2 where b: "generateBlocksForLevel 102
     = newBlock px py (14164350795 / 268435456) (45301236759 / 2147483648) ''#06b6d4'' # r2"
    using level102_head by blast
  have "generateBlocksForLevel 102 \<noteq> generateBlocksForLevel 101"
    unfolding a b by (simp add: newBlock_def)
  then show ?thesis
    by (simp add: list_all2_same)
qed

subsection \<open>Clusters of the levels from 100\<close>

lemma random_next_nonneg: "0 \<le> st \<Longrightarrow> 0 \<le> snd (random_next st)"
  by (rule random_next_range(3))

lemma header100_nonneg: "0 \<le> st \<Longrightarrow> 0 \<le> snd (header100 st)"
  by (simp add: header100_def split_beta random_next_nonneg)

lemma scattered_nonneg: "0 \<le> st \<Longrightarrow> 0 \<le> snd (scattered c rad jitter lo spread is st)"
  by (induction "is" arbitrary: st) (simp_all add: split_beta Let_def random_next_nonneg)

lemma cluster100_nonneg: "0 \<le> st \<Longrightarrow> 0 \<le> snd (cluster100 st)"
  by (simp add: cluster100_def split_beta Let_def random_next_nonneg header100_nonneg
        scattered_nonneg)

lemma clusterStarts_nonneg:
  "0 \<le> st \<Longrightarrow> s \<in> set (clusterStarts cluster100 n st) \<Longrightarrow> 0 \<le> s"
proof (induction n arbitrary: st)
  case 0
  then show ?case by simp
next
  case (Suc n)
  from Suc.prems(1) have "0 \<le> snd (cluster100 st)" by (rule cluster100_nonneg)
  with Suc show ?case by auto
qed

lemma clusters_concat:
  "clusters f n st = concat (map (\<lambda>s. fst (f s)) (clusterStarts f n st))"
  by (induction n arbitrary: st) (simp_all add: split_beta)

lemma floor_scaled:
  fixes r :: real
  assumes "0 \<le> r" and "r < 1"
  shows "0 \<le> \<lfloor>r * real n\<rfloor>" and "\<lfloor>r * real n\<rfloor> < int n \<or> n = 0"
proof -
  show "0 \<le> \<lfloor>r * real n\<rfloor>" using assms by simp
  show "\<lfloor>r * real n\<rfloor> < int n \<or> n = 0"
  proof (cases "n = 0")
    case False
    then have "r * real n < real n" using assms by simp
    then show ?thesis by (simp add: floor_less_iff)
  qed simp
qed

lemma header100_draws:
  "pattern (fst (header100 st)) = lookup patterns100 \<lfloor>draws 7 st ! 2 * 5\<rfloor>"
  "blockCount (fst (header100 st)) = 4 + \<lfloor>draws 7 st ! 3 * 6\<rfloor>"
  by (simp_all add: header100_def split_beta eval_nat_numeral patterns100_def)

lemma draws_unit:
  assumes "0 \<le> st" and "k < n"
  shows "0 \<le> draws n st ! k" and "draws n st ! k < 1"
  using assms random_next_range(1,2) [of "state_after k st"]
  by (simp_all add: draws_nth state_after_nonneg)

lemma lookup_in_range:
  "0 \<le> k \<Longrightarrow> k < int (length xs) \<Longrightarrow> lookup xs k \<in> Some ` set xs"
  by (simp add: lookup_def)

lemma header100_pattern:
  assumes "0 \<le> st"
  shows "pattern (fst (header100 st)) \<in> Some ` set patterns100"
proof -
  let ?r = "draws 7 st ! 2"
  have "0 \<le> ?r" "?r < 1" using draws_unit [OF assms, of 2 7] by simp_all
  from floor_scaled [OF this, of 5] have "0 \<le> \<lfloor>?r * 5\<rfloor>" "\<lfloor>?r * 5\<rfloor> < 5" by simp_all
  then have "lookup patterns100 \<lfloor>?r * 5\<rfloor> \<in> Some ` set patterns100"
    by (intro lookup_in_range) (simp_all add: patterns100_def)
  then show ?thesis
    by (simp only: header100_draws)
qed

lemma header100_blockCount:
  assumes "0 \<le> st"
  shows "4 \<le> blockCount (fst (header100 st))" and "blockCount (fst (header100 st)) \<le> 9"
proof -
  let ?r = "draws 7 st ! 3"
  have "0 \<le> ?r" "?r < 1" using draws_unit [OF assms, of 3 7] by simp_all
  from floor_scaled [OF this, of 6] have "0 \<le> \<lfloor>?r * 6\<rfloor>" "\<lfloor>?r * 6\<rfloor> < 6" by simp_all
  then show "4 \<le> blockCount (fst (header100 st))" and "blockCount (fst (header100 st)) \<le> 9"
    by (simp_all add: header100_draws)
qed

lemma levelDifficulty_mod: "100 \<le> level \<Longrightarrow> levelDifficulty level = (level - 100) mod 12"
  by (simp add: levelDifficulty_def js_rem_nonneg)

lemma numClusters_div: "100 \<le> level \<Longrightarrow> numClusters level = 6 + ((level - 100) mod 12) div 2"
proof -
  assume "100 \<le> level"
  have "\<lfloor>real_of_int k / 2\<rfloor> = k div 2" for k :: int
    using floor_divide_of_int_eq [of k 2, where ?'a = real] by simp
  then show ?thesis
    using \<open>100 \<le> level\<close> by (simp add: numClusters_def levelDifficulty_mod)
qed

lemma clusterStarts_length: "length (clusterStarts f k st) = k"
  by (induction k arbitrary: st) simp_all

text \<open>
  Claim C8, as the code has it. For every level identifier from 100 the generator is
  seeded with the identifier and runs \<open>6 + ((level - 100) mod 12) div 2\<close> clusters, between
  6 and 11, the same number for \<open>level\<close> and \<open>level + 12\<close>. Every cluster takes its pattern
  from tight, scattered, line, arc and spiral, and its block count is \<open>4 + \<lfloor>6 r\<rfloor>\<close> for the
  fourth number \<open>r\<close> drawn for the cluster, between 4 and 9: the block count does not
  depend on \<open>(level - 100) mod 12\<close>.
\<close>

theorem procedural_levels:
  assumes "100 \<le> level"
  shows "generateBlocksForLevel level
           = clusters cluster100 (nat (numClusters level)) (seededRandom level)
       \<and> seededRandom level = level
       \<and> numClusters level = 6 + ((level - 100) mod 12) div 2
       \<and> 6 \<le> numClusters level \<and> numClusters level \<le> 11
       \<and> numClusters (level + 12) = numClusters level
       \<and> generateBlocksForLevel level
           = concat (map (\<lambda>st. fst (cluster100 st))
                       (clusterStarts cluster100 (nat (numClusters level)) (seededRandom level)))
       \<and> length (clusterStarts cluster100 (nat (numClusters level)) (seededRandom level))
           = nat (numClusters level)
       \<and> (\<forall>st \<in> set (clusterStarts cluster100 (nat (numClusters level)) (seededRandom level)).
             pattern (fst (header100 st)) \<in> Some ` set patterns100
             \<and> blockCount (fst (header100 st)) = 4 + \<lfloor>draws 7 st ! 3 * 6\<rfloor>
             \<and> 4 \<le> blockCount (fst (header100 st)) \<and> blockCount (fst (header100 st)) \<le> 9)"
proof -
  let ?starts = "clusterStarts cluster100 (nat (numClusters level)) (seededRandom level)"
  have g: "generateBlocksForLevel level
           = clusters cluster100 (nat (numClusters level)) (seededRandom level)"
    using assms by (simp add: generateBlocksForLevel_def)
  have sd: "seededRandom level = level"
    by (simp add: seededRandom_def)
  have n: "numClusters level = 6 + ((level - 100) mod 12) div 2"
    using assms by (rule numClusters_div)
  have "level + 12 - 100 = (level - 100) + 12" by simp
  then have "(level + 12 - 100) mod 12 = (level - 100) mod 12"
    by (simp only: mod_add_self2)
  moreover have "numClusters (level + 12) = 6 + ((level + 12 - 100) mod 12) div 2"
    using assms by (intro numClusters_div) simp
  ultimately have n12: "numClusters (level + 12) = numClusters level"
    by (simp only: n)
  have "0 \<le> (level - 100) mod 12" and "(level - 100) mod 12 < 12"
    by simp_all
  then have "0 \<le> (level - 100) mod 12 div 2" and "(level - 100) mod 12 div 2 \<le> 5"
    by (simp_all add: pos_imp_zdiv_nonneg_iff zdiv_mono1 [of _ 11 2, simplified])
  then have rng: "6 \<le> numClusters level \<and> numClusters level \<le> 11"
    unfolding n by simp
  have c: "generateBlocksForLevel level = concat (map (\<lambda>st. fst (cluster100 st)) ?starts)"
    by (simp only: g clusters_concat)
  have len: "length ?starts = nat (numClusters level)"
    by (rule clusterStarts_length)
  have nn: "0 \<le> seededRandom level"
    using assms by (simp add: seededRandom_def)
  have hdr: "\<forall>st \<in> set ?starts.
             pattern (fst (header100 st)) \<in> Some ` set patterns100
             \<and> blockCount (fst (header100 st)) = 4 + \<lfloor>draws 7 st ! 3 * 6\<rfloor>
             \<and> 4 \<le> blockCount (fst (header100 st)) \<and> blockCount (fst (header100 st)) \<le> 9"
  proof
    fix st
    assume "st \<in> set ?starts"
    with nn have st: "0 \<le> st" by (rule clusterStarts_nonneg)
    show "pattern (fst (header100 st)) \<in> Some ` set patterns100
             \<and> blockCount (fst (header100 st)) = 4 + \<lfloor>draws 7 st ! 3 * 6\<rfloor>
             \<and> 4 \<le> blockCount (fst (header100 st)) \<and> blockCount (fst (header100 st)) \<le> 9"
      by (intro conjI header100_pattern [OF st] header100_blockCount [OF st] header100_draws(2))
  qed
  from rng have lo: "6 \<le> numClusters level" and hi: "numClusters level \<le> 11"
    by simp_all
  from g sd n lo hi n12 c len hdr show ?thesis
    by (intro conjI)
qed

theorem procedural_levels_witness:
  "(100::int) \<le> 101 \<and> numClusters 101 = 6
   \<and> generateBlocksForLevel 101 = clusters cluster100 (nat 6) (seededRandom 101)"
  using procedural_levels [of 101] by simp

text \<open>
  Claim C8 as the specification states it fails for the block count. The levels 100 and
  112 have the same difficulty 0, yet their first clusters have 6 and 8 blocks; level 123
  has the highest difficulty 11, and its first cluster has 5 blocks, fewer than the
  first cluster of level 100.
\<close>

theorem block_count_not_scaled:
  "levelDifficulty 100 = 0 \<and> levelDifficulty 112 = 0 \<and> levelDifficulty 123 = 11
   \<and> blockCount (fst (header100 (seededRandom 100))) = 6
   \<and> blockCount (fst (header100 (seededRandom 112))) = 8
   \<and> blockCount (fst (header100 (seededRandom 123))) = 5"
  by (simp add: levelDifficulty_def js_rem_def seededRandom_def header100_def header_eval)

section \<open>Properties of the simulator\<close>

lemma updatePaddle_geometry:
  "Paddle.y (updatePaddle ks mx p) = Paddle.y p"
  "Paddle.width (updatePaddle ks mx p) = Paddle.width p"
  "Paddle.height (updatePaddle ks mx p) = Paddle.height p"
  by (simp_all add: updatePaddle_def Let_def)

lemma updatePaddle_x:
  "Paddle.x (updatePaddle ks mx p)
     = max 0 (min (CANVAS_WIDTH - Paddle.width p) (mx - Paddle.width p / 2))"
  by (simp add: updatePaddle_def Let_def)

lemma updatePaddle_keys: "updatePaddle ks mx p = updatePaddle ks' mx p"
  by (simp add: updatePaddle_def Let_def)

lemma max_min_clamp: "lo \<le> hi \<Longrightarrow> max lo (min hi v) = clamp v lo hi"
  by (auto simp: clamp_def max_def min_def)

lemma overlaps_dy [simp]: "overlaps (b\<lparr>dy := v\<rparr>) block = overlaps b block"
  by (simp add: overlaps_def)

lemma blockCollisions_blocks:
  "fst (blockCollisions bs b sc)
     = map (\<lambda>block. if alive block \<and> overlaps b block then block\<lparr>alive := False\<rparr> else block) bs"
  by (induction bs arbitrary: b sc) (auto simp: split_beta)

lemma blockCollisions_score:
  "snd (snd (blockCollisions bs b sc))
     = sc + 10 * int (length (filter (\<lambda>block. alive block \<and> overlaps b block) bs))"
  by (induction bs arbitrary: b sc) (auto simp: split_beta)

lemma blockCollisions_ball:
  "Ball.x (fst (snd (blockCollisions bs b sc))) = Ball.x b"
  "Ball.y (fst (snd (blockCollisions bs b sc))) = Ball.y b"
  "radius (fst (snd (blockCollisions bs b sc))) = radius b"
  "dx (fst (snd (blockCollisions bs b sc))) = dx b"
  "\<bar>dy (fst (snd (blockCollisions bs b sc)))\<bar> = \<bar>dy b\<bar>"
  by (induction bs arbitrary: b sc; auto simp: split_beta)+

lemma speed_abs: "speed b = sqrt ((dx b)\<^sup>2 + \<bar>dy b\<bar>\<^sup>2)"
  by (simp add: speed_def power2_eq_square)

lemma blockCollisions_speed: "speed (fst (snd (blockCollisions bs b sc))) = speed b"
  by (simp add: speed_abs blockCollisions_ball del: power2_abs)

lemma wallCollisions_speed: "speed (wallCollisions b) = speed b"
  by (simp add: wallCollisions_def speed_def Let_def)

lemma wallCollisions_pos:
  "Ball.x (wallCollisions b) = Ball.x b" "Ball.y (wallCollisions b) = Ball.y b"
  "radius (wallCollisions b) = radius b"
  by (simp_all add: wallCollisions_def Let_def)

lemma paddleCollision_pos:
  "Ball.x (paddleCollision p b) = Ball.x b" "Ball.y (paddleCollision p b) = Ball.y b"
  "radius (paddleCollision p b) = radius b"
  by (simp_all add: paddleCollision_def Let_def)

lemma bounce_magnitude:
  "sqrt ((sin a * v) * (sin a * v) + (- \<bar>cos a * v\<bar>) * (- \<bar>cos a * v\<bar>)) = \<bar>v\<bar>"
proof -
  have "(- \<bar>cos a * v\<bar>) * (- \<bar>cos a * v\<bar>) = (cos a * v) * (cos a * v)"
    by simp
  then have "(sin a * v) * (sin a * v) + (- \<bar>cos a * v\<bar>) * (- \<bar>cos a * v\<bar>)
          = (v * v) * (sin a * sin a + cos a * cos a)"
    by (simp only: algebra_simps)
  also have "\<dots> = v * v"
    using sin_cos_squared_add [of a] by (simp add: power2_eq_square)
  finally show ?thesis by simp
qed

lemma paddleCollision_speed: "speed (paddleCollision p b) = speed b"
proof (cases "paddleCollision p b = b")
  case True
  then show ?thesis by simp
next
  case False
  let ?v = "sqrt (dx b * dx b + dy b * dy b)"
  let ?a = "((Ball.x b - Paddle.x p) / Paddle.width p - 0.5) * pi / 1.5"
  from False have eq: "paddleCollision p b
      = b\<lparr>dy := - \<bar>dy b\<bar>, dx := sin ?a * ?v, dy := - \<bar>cos ?a * ?v\<bar>\<rparr>"
    by (simp add: paddleCollision_def Let_def split: if_splits)
  have "speed (paddleCollision p b) = \<bar>?v\<bar>"
    unfolding eq speed_def using bounce_magnitude [of ?a ?v] by simp
  then show ?thesis by (simp add: speed_def)
qed

lemma overlaps_cong:
  "Ball.x b' = Ball.x b \<Longrightarrow> Ball.y b' = Ball.y b \<Longrightarrow> radius b' = radius b
     \<Longrightarrow> overlaps b' block = overlaps b block"
  by (simp add: overlaps_def)

lemma collided_pos:
  "Ball.x (paddleCollision p (wallCollisions (moveBall b))) = Ball.x (moveBall b)"
  "Ball.y (paddleCollision p (wallCollisions (moveBall b))) = Ball.y (moveBall b)"
  "radius (paddleCollision p (wallCollisions (moveBall b))) = radius (moveBall b)"
  by (simp_all add: paddleCollision_pos wallCollisions_pos)

lemma overlaps_collided:
  "overlaps (paddleCollision p (wallCollisions (moveBall b))) block = overlaps (moveBall b) block"
  by (rule overlaps_cong) (rule collided_pos)+

lemma loseLife_fields:
  "blocks (loseLife s b) = blocks s" "score (loseLife s b) = score s"
  "paddle (loseLife s b) = paddle s" "keys (loseLife s b) = keys s"
  "mouseX (loseLife s b) = mouseX s" "levelId (loseLife s b) = levelId s"
  "lives (loseLife s b) = lives s - 1"
  "gameState (loseLife s b) = (if lives s - 1 \<le> 0 then defeat else gameState s)"
  "ballLaunched (loseLife s b) = (if lives s - 1 \<le> 0 then ballLaunched s else False)"
  "ball (loseLife s b) = (if lives s - 1 \<le> 0 then ball s
     else Some (b\<lparr>Ball.x := Paddle.x (paddle s) + Paddle.width (paddle s) / 2,
                    Ball.y := Paddle.y (paddle s) - 10, dx := 0, dy := 0\<rparr>))"
  by (simp_all add: loseLife_def Let_def)

lemma checkVictory_fields:
  "blocks (checkVictory s) = blocks s" "score (checkVictory s) = score s"
  "paddle (checkVictory s) = paddle s" "keys (checkVictory s) = keys s"
  "mouseX (checkVictory s) = mouseX s" "levelId (checkVictory s) = levelId s"
  "lives (checkVictory s) = lives s" "ball (checkVictory s) = ball s"
  "ballLaunched (checkVictory s) = ballLaunched s"
  "gameState (checkVictory s) = (if allDead (blocks s) then victory else gameState s)"
  by (simp_all add: checkVictory_def)

lemma struck_fun: "struck b = (\<lambda>block. alive block \<and> overlaps (moveBall b) block)"
  by (rule ext) (simp add: struck_def)

lemma kill_fun:
  "kill b = (\<lambda>block. if alive block \<and> overlaps (moveBall b) block
                      then block\<lparr>alive := False\<rparr> else block)"
  by (rule ext) (simp add: kill_def struck_def)

lemma launchedStep_unfold:
  "launchedStep s b =
     (let b1 = paddleCollision (paddle s) (wallCollisions (moveBall b));
          r = blockCollisions (blocks s) b1 (score s);
          s' = s\<lparr>blocks := fst r, ball := Some (fst (snd r)), score := snd (snd r)\<rparr>
      in if exitsBottom b then loseLife s' (fst (snd r)) else s')"
  by (simp add: launchedStep_def Let_def split_beta exitsBottom_def
        blockCollisions_ball collided_pos)

lemma launchedStep_fields:
  "blocks (launchedStep s b) = map (kill b) (blocks s)"
  "score (launchedStep s b) = score s + 10 * int (length (filter (struck b) (blocks s)))"
  "paddle (launchedStep s b) = paddle s" "keys (launchedStep s b) = keys s"
  "mouseX (launchedStep s b) = mouseX s" "levelId (launchedStep s b) = levelId s"
  "lives (launchedStep s b) = (if exitsBottom b then lives s - 1 else lives s)"
  "gameState (launchedStep s b)
     = (if exitsBottom b \<and> lives s - 1 \<le> 0 then defeat else gameState s)"
  "ballLaunched (launchedStep s b)
     = (if exitsBottom b \<and> \<not> lives s - 1 \<le> 0 then False else ballLaunched s)"
  by (simp_all add: launchedStep_unfold Let_def loseLife_fields blockCollisions_blocks
        blockCollisions_score overlaps_collided kill_fun struck_fun cong: if_cong)

lemma updateBall_fields:
  "paddle (updateBall s) = paddle s" "keys (updateBall s) = keys s"
  "mouseX (updateBall s) = mouseX s" "levelId (updateBall s) = levelId s"
  by (simp_all add: updateBall_def launchedStep_fields split: option.split)

lemma updateBall_launched:
  "ball s = Some b \<Longrightarrow> ballLaunched s \<Longrightarrow> updateBall s = launchedStep s b"
  by (simp add: updateBall_def)

lemma updateBall_waiting:
  "ball s = Some b \<Longrightarrow> \<not> ballLaunched s \<Longrightarrow>
     updateBall s = s\<lparr>ball := Some (b\<lparr>Ball.x := Paddle.x (paddle s) + Paddle.width (paddle s) / 2,
                                        Ball.y := Paddle.y (paddle s) - 10\<rparr>)\<rparr>"
  by (simp add: updateBall_def)

lemma gameLoop_playing:
  "gameState s = playing \<Longrightarrow>
     gameLoop s = checkVictory (updateBall (s\<lparr>paddle := updatePaddle (keys s) (mouseX s) (paddle s)\<rparr>))"
  by (simp add: gameLoop_def)

lemma gameLoop_idle: "gameState s \<noteq> playing \<Longrightarrow> gameLoop s = s"
  by (simp add: gameLoop_def)

lemma gameLoop_fields:
  "paddle (gameLoop s)
     = (if gameState s = playing then updatePaddle (keys s) (mouseX s) (paddle s) else paddle s)"
  "keys (gameLoop s) = keys s" "mouseX (gameLoop s) = mouseX s" "levelId (gameLoop s) = levelId s"
  by (simp_all add: gameLoop_def checkVictory_fields updateBall_fields)

lemma gameLoop_launched:
  assumes "gameState s = playing" and "ballLaunched s" and "ball s = Some b"
  shows "gameLoop s
           = checkVictory (launchedStep (s\<lparr>paddle := updatePaddle (keys s) (mouseX s) (paddle s)\<rparr>) b)"
  using assms by (simp add: gameLoop_playing updateBall_launched)

lemma initSession_paddle:
  "Paddle.width (paddle (initSession level)) = 120" "Paddle.y (paddle (initSession level)) = 560"
  by (simp_all add: initSession_def Let_def)

lemma launch_fields:
  "paddle (launch rnd s) = paddle s" "blocks (launch rnd s) = blocks s"
  "score (launch rnd s) = score s" "lives (launch rnd s) = lives s"
  "gameState (launch rnd s) = gameState s" "levelId (launch rnd s) = levelId s"
  "keys (launch rnd s) = keys s" "mouseX (launch rnd s) = mouseX s"
  by (simp_all add: launch_def Let_def split: option.split)

lemma handleKeyDown_fields:
  "paddle (handleKeyDown key rnd s) = paddle s" "blocks (handleKeyDown key rnd s) = blocks s"
  "score (handleKeyDown key rnd s) = score s" "lives (handleKeyDown key rnd s) = lives s"
  "gameState (handleKeyDown key rnd s) = gameState s" "levelId (handleKeyDown key rnd s) = levelId s"
  "mouseX (handleKeyDown key rnd s) = mouseX s"
  by (simp_all add: handleKeyDown_def Let_def launch_fields)

lemma reachable_paddle:
  "reachable level s \<Longrightarrow> Paddle.width (paddle s) = 120 \<and> Paddle.y (paddle s) = 560"
proof (induction rule: reachable.induct)
  case start
  show ?case by (simp add: initSession_paddle)
next
  case (tick s)
  then show ?case by (simp add: gameLoop_fields updatePaddle_geometry)
next
  case (keyDown s rnd key)
  then show ?case by (simp add: handleKeyDown_fields)
next
  case (keyUp s key)
  then show ?case by (simp add: handleKeyUp_def)
next
  case (mouseMove s mx)
  then show ?case by (simp add: handleMouseMove_def)
next
  case (click s rnd)
  then show ?case by (simp add: handleClick_def launch_fields)
next
  case (restart s)
  then show ?case by (simp add: handleRestart_def)
next
  case (pause s)
  then show ?case by (simp add: togglePause_def)
qed

lemma paddleCollision_formula:
  "paddleCollision p b
     = (if hitsPaddle p b
        then b\<lparr>dx := sin (bounceAngle p b) * speed b,
                dy := - \<bar>cos (bounceAngle p b) * speed b\<bar>\<rparr>
        else b)"
  by (simp add: paddleCollision_def hitsPaddle_def bounceAngle_def speed_def Let_def)

text \<open>
  Claim C5. A wall bounce and a block bounce only flip the sign of \<open>dx\<close> or \<open>dy\<close> and
  leave \<open>sqrt (dx\<^sup>2 + dy\<^sup>2)\<close> as it was. A paddle bounce sets \<open>dx = sin angle * speed\<close> and
  \<open>dy = - \<bar>cos angle * speed\<bar>\<close>, where \<open>speed\<close> is the magnitude before the bounce, and
  the magnitude after the bounce is again \<open>speed\<close>. Numbers are real numbers here.
\<close>

theorem speed_invariance:
  "speed (wallCollisions b) = speed b
   \<and> \<bar>dx (wallCollisions b)\<bar> = \<bar>dx b\<bar> \<and> \<bar>dy (wallCollisions b)\<bar> = \<bar>dy b\<bar>
   \<and> speed (fst (snd (blockCollisions bs b sc))) = speed b
   \<and> dx (fst (snd (blockCollisions bs b sc))) = dx b
   \<and> \<bar>dy (fst (snd (blockCollisions bs b sc)))\<bar> = \<bar>dy b\<bar>
   \<and> paddleCollision p b
       = (if hitsPaddle p b
          then b\<lparr>dx := sin (bounceAngle p b) * speed b,
                  dy := - \<bar>cos (bounceAngle p b) * speed b\<bar>\<rparr>
          else b)
   \<and> speed (paddleCollision p b) = speed b"
proof (intro conjI)
  show "\<bar>dx (wallCollisions b)\<bar> = \<bar>dx b\<bar>" and "\<bar>dy (wallCollisions b)\<bar> = \<bar>dy b\<bar>"
    by (simp_all add: wallCollisions_def Let_def)
  show "speed (wallCollisions b) = speed b"
    by (rule wallCollisions_speed)
  show "speed (fst (snd (blockCollisions bs b sc))) = speed b"
    by (rule blockCollisions_speed)
  show "dx (fst (snd (blockCollisions bs b sc))) = dx b"
    and "\<bar>dy (fst (snd (blockCollisions bs b sc)))\<bar> = \<bar>dy b\<bar>"
    by (rule blockCollisions_ball)+
  show "paddleCollision p b
       = (if hitsPaddle p b
          then b\<lparr>dx := sin (bounceAngle p b) * speed b,
                  dy := - \<bar>cos (bounceAngle p b) * speed b\<bar>\<rparr>
          else b)"
    by (rule paddleCollision_formula)
  show "speed (paddleCollision p b) = speed b"
    by (rule paddleCollision_speed)
qed

text \<open>
  Claim C10. On a tick of a launched ball in the playing state, every alive block whose
  box overlaps the box of the moved ball is marked dead, no other block changes, and the
  score grows by 10 for each of them: by \<open>10 * k\<close> when \<open>k\<close> blocks are struck.
\<close>

theorem block_hits_score:
  assumes "gameState s = playing" and "ballLaunched s" and "ball s = Some b"
  shows "score (gameLoop s) = score s + 10 * int (length (filter (struck b) (blocks s)))
       \<and> blocks (gameLoop s) = map (kill b) (blocks s)"
  by (simp add: gameLoop_launched [OF assms] checkVictory_fields launchedStep_fields)

theorem block_hits_score_witness:
  "gameState ((initSession 1)\<lparr>ball := Some \<lparr>Ball.x = 112, Ball.y = 177, dx = 0, dy = - 4, radius = 8\<rparr>,
                                ballLaunched := True\<rparr>) = playing
   \<and> score (gameLoop ((initSession 1)\<lparr>ball := Some \<lparr>Ball.x = 112, Ball.y = 177, dx = 0, dy = - 4, radius = 8\<rparr>,
                                ballLaunched := True\<rparr>)) = 20
   \<and> length (filter alive (blocks (gameLoop ((initSession 1)\<lparr>ball := Some \<lparr>Ball.x = 112, Ball.y = 177, dx = 0, dy = - 4, radius = 8\<rparr>,
                                ballLaunched := True\<rparr>)))) = 22"
  using block_hits_score [of "(initSession 1)\<lparr>ball := Some \<lparr>Ball.x = 112, Ball.y = 177, dx = 0, dy = - 4, radius = 8\<rparr>,
                                ballLaunched := True\<rparr>" "\<lparr>Ball.x = 112, Ball.y = 177, dx = 0, dy = - 4, radius = 8\<rparr>"]
  by (simp add: initSession_def Let_def level1_list level1_def upt_rec newBlock_def
        struck_def kill_def overlaps_def moveBall_def)

text \<open>
  Claim C9. On every tick in the playing state the paddle's \<open>x\<close> after the paddle update is
  \<open>clamp (mouseX - width / 2) 0 (CANVAS_WIDTH - width)\<close>, whatever keys are held: the same
  pointer position with other key states gives the same \<open>x\<close>.
\<close>

theorem pointer_wins:
  assumes "reachable level s" and "gameState s = playing"
  shows "Paddle.x (paddle (gameLoop s))
           = clamp (mouseX s - Paddle.width (paddle s) / 2) 0 (CANVAS_WIDTH - Paddle.width (paddle s))
       \<and> Paddle.x (updatePaddle (keys s) (mouseX s) (paddle s)) = Paddle.x (paddle (gameLoop s))
       \<and> (\<forall>ks. Paddle.x (paddle (gameLoop (s\<lparr>keys := ks\<rparr>))) = Paddle.x (paddle (gameLoop s)))"
proof -
  have w: "Paddle.width (paddle s) = 120"
    using reachable_paddle [OF assms(1)] by simp
  have "(0::real) \<le> CANVAS_WIDTH - Paddle.width (paddle s)"
    by (simp add: w CANVAS_WIDTH_def)
  from max_min_clamp [OF this]
  have up: "Paddle.x (updatePaddle (keys s) (mouseX s) (paddle s))
          = clamp (mouseX s - Paddle.width (paddle s) / 2) 0 (CANVAS_WIDTH - Paddle.width (paddle s))"
    by (simp add: updatePaddle_x)
  have loop: "paddle (gameLoop s) = updatePaddle (keys s) (mouseX s) (paddle s)"
    using assms(2) by (simp add: gameLoop_fields)
  have "paddle (gameLoop (s\<lparr>keys := ks\<rparr>)) = updatePaddle ks (mouseX s) (paddle s)" for ks
    using assms(2) by (simp add: gameLoop_fields)
  then have "Paddle.x (paddle (gameLoop (s\<lparr>keys := ks\<rparr>))) = Paddle.x (paddle (gameLoop s))" for ks
    by (simp only: loop updatePaddle_keys [of ks _ _ "keys s"])
  then show ?thesis
    by (simp only: loop up simp_thms)
qed

theorem pointer_wins_witness:
  "reachable 1 (handleKeyDown ''ArrowLeft'' 0 (handleMouseMove 100 (initSession 1)))
   \<and> gameState (handleKeyDown ''ArrowLeft'' 0 (handleMouseMove 100 (initSession 1))) = playing
   \<and> Paddle.x (paddle (gameLoop (handleKeyDown ''ArrowLeft'' 0 (handleMouseMove 100 (initSession 1))))) = 40"
proof -
  let ?s = "handleKeyDown ''ArrowLeft'' 0 (handleMouseMove 100 (initSession 1))"
  have r: "reachable 1 ?s"
    by (intro reachable.keyDown reachable.mouseMove reachable.start) simp_all
  have p: "gameState ?s = playing"
    by (simp add: handleKeyDown_fields handleMouseMove_def initSession_def Let_def)
  from pointer_wins [OF r p] r p show ?thesis
    by (simp add: handleKeyDown_fields handleMouseMove_def initSession_def Let_def clamp_def
          CANVAS_WIDTH_def)
qed

section \<open>Properties of sessions\<close>

lemma kill_geometry:
  "insideMargins (kill b block) = insideMargins block"
  by (simp add: kill_def insideMargins_def)

lemma kill_inside: "list_all insideMargins (map (kill b) bs) = list_all insideMargins bs"
  by (simp add: list_all_iff kill_geometry)

lemma kill_allDead: "allDead bs \<Longrightarrow> allDead (map (kill b) bs)"
  by (auto simp: allDead_def list_all_iff kill_def)

lemma kill_dead_unchanged: "allDead bs \<Longrightarrow> map (kill b) bs = bs"
  by (induction bs) (auto simp: allDead_def kill_def struck_def)

lemma exits_not_struck:
  assumes "exitsBottom b" and "insideMargins block"
  shows "\<not> struck b block"
  using assms
  by (simp add: exitsBottom_def insideMargins_def struck_def overlaps_def moveBall_def
        CANVAS_HEIGHT_def maxY_def)

lemma exits_keeps_alive:
  assumes "exitsBottom b" and "list_all insideMargins bs" and "\<not> allDead bs"
  shows "\<not> allDead (map (kill b) bs)"
proof -
  from assms(3) obtain block where blk: "block \<in> set bs" "alive block"
    by (auto simp: allDead_def list_all_iff)
  with assms(2) have "insideMargins block" by (simp add: list_all_iff)
  with assms(1) have "\<not> struck b block" by (rule exits_not_struck)
  with blk have "kill b block \<in> set (map (kill b) bs)" "alive (kill b block)"
    by (simp_all add: kill_def)
  then show ?thesis
    by (auto simp: allDead_def list_all_iff)
qed

lemma moveBall_radius [simp]: "radius (moveBall b) = radius b"
  by (simp add: moveBall_def)

lemma launchedStep_ball:
  "\<exists>b'. ball (launchedStep s b) = Some b' \<and> radius b' = radius b
        \<and> (exitsBottom b \<and> \<not> lives s - 1 \<le> 0 \<longrightarrow>
             Ball.x b' = Paddle.x (paddle s) + Paddle.width (paddle s) / 2
             \<and> Ball.y b' = Paddle.y (paddle s) - 10 \<and> dx b' = 0 \<and> dy b' = 0)"
  by (simp add: launchedStep_unfold Let_def loseLife_fields blockCollisions_ball collided_pos)

lemma start_no_exit:
  assumes "Ball.y b = 550" and "dy b \<le> 0" and "radius b = 8"
  shows "\<not> exitsBottom b"
  using assms by (simp add: exitsBottom_def moveBall_def CANVAS_HEIGHT_def)

lemma launch_angle:
  assumes "0 \<le> rnd" and "rnd < 1"
  shows "- cos ((rnd - 0.5) * pi / 3) * 4 \<le> 0"
proof -
  have "(- (1 / 2)) * pi \<le> (rnd - 0.5) * pi" and "(rnd - 0.5) * pi \<le> (1 / 2) * pi"
    using assms by (intro mult_right_mono; simp)+
  then have "- (pi / 2) \<le> (rnd - 0.5) * pi / 3" and "(rnd - 0.5) * pi / 3 \<le> pi / 2"
    using pi_gt_zero by linarith+
  then have "0 \<le> cos ((rnd - 0.5) * pi / 3)" by (rule cos_ge_zero)
  then show ?thesis by simp
qed

lemma sessionInv_init: "sessionInv (initSession level)"
  by (auto simp: sessionInv_def initSession_def Let_def ballOnPaddle_def list_all_iff
        intro: generated_inside)

lemma sessionInv_restart: "sessionInv s \<Longrightarrow> sessionInv (handleRestart s)"
  by (auto simp: sessionInv_def handleRestart_def ballOnPaddle_def list_all_iff
        intro: generated_inside)

lemma sessionInv_pause: "sessionInv s \<Longrightarrow> sessionInv (togglePause s)"
  by (auto simp: sessionInv_def togglePause_def split: option.splits)

lemma sessionInv_keyUp: "sessionInv s \<Longrightarrow> sessionInv (handleKeyUp key s)"
  by (auto simp: sessionInv_def handleKeyUp_def)

lemma sessionInv_mouseMove: "sessionInv s \<Longrightarrow> sessionInv (handleMouseMove mx s)"
  by (auto simp: sessionInv_def handleMouseMove_def)

lemma sessionInv_launch:
  assumes "sessionInv s" and "0 \<le> rnd" and "rnd < 1"
  shows "sessionInv (launch rnd s)"
  using assms launch_angle [OF assms(2,3)]
  by (auto simp: sessionInv_def launch_def Let_def split: option.splits)

lemma sessionInv_keys: "sessionInv (s\<lparr>keys := ks\<rparr>) = sessionInv s"
  by (auto simp: sessionInv_def)

lemma sessionInv_keyDown:
  assumes "sessionInv s" and "0 \<le> rnd" and "rnd < 1"
  shows "sessionInv (handleKeyDown key rnd s)"
  using assms by (simp add: handleKeyDown_def Let_def sessionInv_launch sessionInv_keys)

lemma sessionInv_click:
  assumes "sessionInv s" and "0 \<le> rnd" and "rnd < 1"
  shows "sessionInv (handleClick rnd s)"
  using assms by (simp add: handleClick_def sessionInv_launch)

lemma gameLoop_launched_fields:
  assumes "gameState s = playing" and "ballLaunched s" and "ball s = Some b"
  shows "blocks (gameLoop s) = map (kill b) (blocks s)"
    and "score (gameLoop s) = score s + 10 * int (length (filter (struck b) (blocks s)))"
    and "lives (gameLoop s) = (if exitsBottom b then lives s - 1 else lives s)"
    and "gameState (gameLoop s)
           = (if allDead (map (kill b) (blocks s)) then victory
              else if exitsBottom b \<and> lives s - 1 \<le> 0 then defeat else playing)"
    and "ballLaunched (gameLoop s) = (\<not> (exitsBottom b \<and> \<not> lives s - 1 \<le> 0))"
    and "\<exists>b'. ball (gameLoop s) = Some b' \<and> radius b' = radius b
           \<and> (exitsBottom b \<and> \<not> lives s - 1 \<le> 0 \<longrightarrow>
                Ball.x b' = Paddle.x (paddle (gameLoop s)) + Paddle.width (paddle (gameLoop s)) / 2
                \<and> Ball.y b' = Paddle.y (paddle (gameLoop s)) - 10 \<and> dx b' = 0 \<and> dy b' = 0)"
proof -
  let ?s1 = "s\<lparr>paddle := updatePaddle (keys s) (mouseX s) (paddle s)\<rparr>"
  have loop: "gameLoop s = checkVictory (launchedStep ?s1 b)"
    using assms by (rule gameLoop_launched)
  show "blocks (gameLoop s) = map (kill b) (blocks s)"
    and "score (gameLoop s) = score s + 10 * int (length (filter (struck b) (blocks s)))"
    and "lives (gameLoop s) = (if exitsBottom b then lives s - 1 else lives s)"
    and "ballLaunched (gameLoop s) = (\<not> (exitsBottom b \<and> \<not> lives s - 1 \<le> 0))"
    using assms(2) by (simp_all add: loop checkVictory_fields launchedStep_fields)
  show "gameState (gameLoop s)
           = (if allDead (map (kill b) (blocks s)) then victory
              else if exitsBottom b \<and> lives s - 1 \<le> 0 then defeat else playing)"
    using assms(1) by (simp add: loop checkVictory_fields launchedStep_fields)
  have p: "paddle (gameLoop s) = paddle ?s1"
    by (simp add: loop checkVictory_fields launchedStep_fields)
  from launchedStep_ball [of ?s1 b]
  show "\<exists>b'. ball (gameLoop s) = Some b' \<and> radius b' = radius b
           \<and> (exitsBottom b \<and> \<not> lives s - 1 \<le> 0 \<longrightarrow>
                Ball.x b' = Paddle.x (paddle (gameLoop s)) + Paddle.width (paddle (gameLoop s)) / 2
                \<and> Ball.y b' = Paddle.y (paddle (gameLoop s)) - 10 \<and> dx b' = 0 \<and> dy b' = 0)"
    unfolding p by (simp add: loop checkVictory_fields)
qed

lemma gameLoop_waiting_fields:
  assumes "gameState s = playing" and "\<not> ballLaunched s" and "ball s = Some b"
  shows "blocks (gameLoop s) = blocks s" and "score (gameLoop s) = score s"
    and "lives (gameLoop s) = lives s"
    and "gameState (gameLoop s) = (if allDead (blocks s) then victory else playing)"
    and "ballLaunched (gameLoop s) = False"
    and "ball (gameLoop s)
           = Some (b\<lparr>Ball.x := Paddle.x (paddle (gameLoop s)) + Paddle.width (paddle (gameLoop s)) / 2,
                      Ball.y := Paddle.y (paddle (gameLoop s)) - 10\<rparr>)"
  using assms
  by (simp_all add: gameLoop_playing updateBall_waiting checkVictory_fields)

lemma sessionInv_tick:
  assumes "sessionInv s"
  shows "sessionInv (gameLoop s)"
proof (cases "gameState s = playing")
  case False
  with assms show ?thesis by (simp add: gameLoop_idle)
next
  case True
  from assms obtain b where b: "ball s = Some b" "radius b = 8"
    by (auto simp: sessionInv_def)
  have pad: "Paddle.y (paddle (gameLoop s)) = 560" "Paddle.width (paddle (gameLoop s)) = 120"
    using assms True by (simp_all add: gameLoop_fields updatePaddle_geometry sessionInv_def)
  from assms True have lv: "1 \<le> lives s" "lives s \<le> 3"
    by (auto simp: sessionInv_def)
  from assms have ins: "list_all insideMargins (blocks s)"
    by (simp add: sessionInv_def)
  show ?thesis
  proof (cases "ballLaunched s")
    case False
    note f = gameLoop_waiting_fields [OF True False b(1)]
    show ?thesis
      using lv ins b(2) pad by (auto simp: sessionInv_def f)
  next
    case launched: True
    note f = gameLoop_launched_fields [OF True launched b(1)]
    from f(6) obtain b' where b': "ball (gameLoop s) = Some b'" "radius b' = 8"
      using b(2) by auto
    show ?thesis
    proof (cases "exitsBottom b")
      case False
      then show ?thesis
        using lv ins b' pad by (auto simp: sessionInv_def f(1-5) kill_inside)
    next
      case ex: True
      have "\<not> allDead (blocks s)"
      proof
        assume "allDead (blocks s)"
        with assms True b have "Ball.y b = 550" "dy b \<le> 0"
          by (auto simp: sessionInv_def)
        with b(2) have "\<not> exitsBottom b" by (intro start_no_exit)
        with ex show False by simp
      qed
      with ex ins have "\<not> allDead (map (kill b) (blocks s))"
        by (intro exits_keeps_alive)
      then show ?thesis
        using lv ins b' pad ex by (auto simp: sessionInv_def f(1-5) kill_inside)
    qed
  qed
qed

lemma reachable_inv:
  "reachable level s \<Longrightarrow> sessionInv s \<and> levelId s = level"
proof (induction rule: reachable.induct)
  case start
  show ?case by (simp add: sessionInv_init) (simp add: initSession_def Let_def)
next
  case (tick s)
  then show ?case by (simp add: sessionInv_tick gameLoop_fields)
next
  case (keyDown s rnd key)
  then show ?case by (simp add: sessionInv_keyDown handleKeyDown_fields)
next
  case (keyUp s key)
  then show ?case by (simp add: sessionInv_keyUp) (simp add: handleKeyUp_def)
next
  case (mouseMove s mx)
  then show ?case by (simp add: sessionInv_mouseMove) (simp add: handleMouseMove_def)
next
  case (click s rnd)
  then show ?case by (simp add: sessionInv_click) (simp add: handleClick_def launch_fields)
next
  case (restart s)
  then show ?case by (simp add: sessionInv_restart) (simp add: handleRestart_def)
next
  case (pause s)
  then show ?case by (simp add: sessionInv_pause) (simp add: togglePause_def)
qed

lemma frozen_fire:
  assumes "gameState s = defeat" and "e \<noteq> Restart"
  shows "gameState (fire e s) = defeat \<and> score (fire e s) = score s \<and> lives (fire e s) = lives s"
  using assms
  by (cases e)
     (simp_all add: gameLoop_idle handleKeyDown_fields handleKeyUp_def handleMouseMove_def
        handleClick_def launch_fields togglePause_def)

lemma frozen_run:
  assumes "gameState s = defeat" and "Restart \<notin> set evs"
  shows "gameState (run evs s) = defeat \<and> score (run evs s) = score s \<and> lives (run evs s) = lives s"
  using assms
proof (induction evs arbitrary: s)
  case Nil
  then show ?case by simp
next
  case (Cons e evs)
  then have "e \<noteq> Restart" and rest: "Restart \<notin> set evs" by auto
  from frozen_fire [OF Cons.prems(1) this(1)] Cons.IH [OF _ rest, of "fire e s"]
  show ?case by simp
qed

text \<open>
  Claim C7. In a session the lives never go below 0, the state is \<open>defeat\<close> exactly when
  the lives are 0, and a tick changes the state to \<open>defeat\<close> exactly when it brings the
  lives to 0; a tick takes at most one life. A tick on which the launched ball leaves
  through the bottom takes exactly one life, and it ends in the state \<open>defeat\<close> when that
  was the last life and in the state \<open>playing\<close> otherwise. In the state \<open>defeat\<close> a tick
  changes nothing, and no run of events without a restart changes the state, the score
  or the lives.
\<close>

theorem defeat_frozen:
  assumes "reachable level s"
  shows "0 \<le> lives s
       \<and> (gameState s = defeat \<longleftrightarrow> lives s = 0)
       \<and> ((gameState s \<noteq> defeat \<and> gameState (gameLoop s) = defeat)
            \<longleftrightarrow> (lives s \<noteq> 0 \<and> lives (gameLoop s) = 0))
       \<and> (lives (gameLoop s) = lives s \<or> lives (gameLoop s) = lives s - 1)
       \<and> (gameState s = playing \<and> ballLaunched s \<and> ball s = Some b \<and> exitsBottom b \<longrightarrow>
            lives (gameLoop s) = lives s - 1
            \<and> gameState (gameLoop s) = (if lives s = 1 then defeat else playing))
       \<and> (gameState t = defeat \<and> Restart \<notin> set evs \<longrightarrow>
            gameLoop t = t \<and> gameState (run evs t) = defeat
            \<and> score (run evs t) = score t \<and> lives (run evs t) = lives t)"
proof -
  from reachable_inv [OF assms] have inv: "sessionInv s" by simp
  from reachable_inv [OF reachable.tick [OF assms]] have inv': "sessionInv (gameLoop s)" by simp
  have step: "lives (gameLoop s) = lives s \<or> lives (gameLoop s) = lives s - 1"
  proof (cases "gameState s = playing")
    case False
    then show ?thesis by (simp add: gameLoop_idle)
  next
    case True
    from inv obtain b where b: "ball s = Some b" by (auto simp: sessionInv_def)
    show ?thesis
    proof (cases "ballLaunched s")
      case False
      from gameLoop_waiting_fields(3) [OF True False b] show ?thesis by simp
    next
      case launched: True
      from gameLoop_launched_fields(3) [OF True launched b] show ?thesis by simp
    qed
  qed
  have exit: "gameState s = playing \<and> ballLaunched s \<and> ball s = Some b \<and> exitsBottom b \<longrightarrow>
            lives (gameLoop s) = lives s - 1
            \<and> gameState (gameLoop s) = (if lives s = 1 then defeat else playing)"
  proof (rule impI)
    assume h: "gameState s = playing \<and> ballLaunched s \<and> ball s = Some b \<and> exitsBottom b"
    from h have p: "gameState s = playing" and l: "ballLaunched s" and b: "ball s = Some b"
      and ex: "exitsBottom b" by simp_all
    note f = gameLoop_launched_fields [OF p l b]
    have "\<not> allDead (blocks s)"
    proof
      assume "allDead (blocks s)"
      with inv p b have "Ball.y b = 550" "dy b \<le> 0" "radius b = 8"
        by (auto simp: sessionInv_def)
      then have "\<not> exitsBottom b" by (intro start_no_exit)
      with ex show False by simp
    qed
    moreover from inv have "list_all insideMargins (blocks s)" by (simp add: sessionInv_def)
    ultimately have alive: "\<not> allDead (map (kill b) (blocks s))"
      using ex by (intro exits_keeps_alive)
    from inv p have "1 \<le> lives s" by (auto simp: sessionInv_def)
    then have "lives s - 1 \<le> 0 \<longleftrightarrow> lives s = 1" by auto
    with ex alive show "lives (gameLoop s) = lives s - 1
            \<and> gameState (gameLoop s) = (if lives s = 1 then defeat else playing)"
      by (simp add: f(3,4))
  qed
  have frozen: "gameState t = defeat \<and> Restart \<notin> set evs \<longrightarrow>
            gameLoop t = t \<and> gameState (run evs t) = defeat
            \<and> score (run evs t) = score t \<and> lives (run evs t) = lives t"
    using frozen_run [of t evs] by (simp add: gameLoop_idle)
  from inv inv' have "0 \<le> lives s" and "gameState s = defeat \<longleftrightarrow> lives s = 0"
    and "(gameState s \<noteq> defeat \<and> gameState (gameLoop s) = defeat)
            \<longleftrightarrow> (lives s \<noteq> 0 \<and> lives (gameLoop s) = 0)"
    by (auto simp: sessionInv_def)
  with step frozen exit show ?thesis by (intro conjI)
qed

lemma nonempty_not_dead:
  "generateBlocksForLevel level \<noteq> [] \<Longrightarrow> \<not> allDead (generateBlocksForLevel level)"
  using generated_alive [of _ level]
  by (cases "generateBlocksForLevel level") (auto simp: allDead_def)

lemma victory_inv:
  assumes "reachable level s" and "generateBlocksForLevel level \<noteq> []"
  shows "gameState s = victory \<longleftrightarrow> allDead (blocks s)"
  using assms(1)
proof (induction rule: reachable.induct)
  case start
  show ?case using nonempty_not_dead [OF assms(2)] by (simp add: initSession_def Let_def)
next
  case (tick s)
  show ?case
  proof (cases "gameState s = playing")
    case False
    with tick.IH show ?thesis by (simp add: gameLoop_idle)
  next
    case True
    from reachable_inv [OF tick.hyps] obtain b where b: "ball s = Some b"
      by (auto simp: sessionInv_def)
    show ?thesis
    proof (cases "ballLaunched s")
      case False
      from gameLoop_waiting_fields(1,4) [OF True False b] show ?thesis by simp
    next
      case launched: True
      from gameLoop_launched_fields(1,4) [OF True launched b] show ?thesis by simp
    qed
  qed
next
  case (keyDown s rnd key)
  then show ?case by (simp add: handleKeyDown_fields)
next
  case (keyUp s key)
  then show ?case by (simp add: handleKeyUp_def)
next
  case (mouseMove s mx)
  then show ?case by (simp add: handleMouseMove_def)
next
  case (click s rnd)
  then show ?case by (simp add: handleClick_def launch_fields)
next
  case (restart s)
  from reachable_inv [OF restart.hyps] have "levelId s = level" by simp
  then show ?case using nonempty_not_dead [OF assms(2)] by (simp add: handleRestart_def)
next
  case (pause s)
  then show ?case by (auto simp: togglePause_def)
qed

lemma updateBall_not_victory:
  "gameState s = playing \<Longrightarrow> gameState (updateBall s) \<noteq> victory"
  by (simp add: updateBall_def launchedStep_fields split: option.split)

lemma tick_victory:
  assumes "gameState t = playing"
  shows "gameState (gameLoop t) = victory \<longleftrightarrow> allDead (blocks (gameLoop t))"
  using assms updateBall_not_victory [of "t\<lparr>paddle := updatePaddle (keys t) (mouseX t) (paddle t)\<rparr>"]
  by (simp add: gameLoop_playing checkVictory_fields)

text \<open>
  Claim C3, as the code has it. After every tick run in the state \<open>playing\<close> the state is
  \<open>victory\<close> if and only if no block is alive. In a session for a level that has at
  least one block, the state is \<open>victory\<close> if and only if no block is alive, in every
  state of the session, and a tick changes the state to \<open>victory\<close> exactly when it
  destroys the last alive block.
\<close>

theorem victory_equivalence:
  assumes "reachable level s" and "generateBlocksForLevel level \<noteq> []"
  shows "(gameState s = victory \<longleftrightarrow> allDead (blocks s))
       \<and> ((gameState s \<noteq> victory \<and> gameState (gameLoop s) = victory)
            \<longleftrightarrow> (\<not> allDead (blocks s) \<and> allDead (blocks (gameLoop s))))
       \<and> (gameState t = playing \<longrightarrow>
            (gameState (gameLoop t) = victory \<longleftrightarrow> allDead (blocks (gameLoop t))))"
  using victory_inv [OF assms] victory_inv [OF reachable.tick [OF assms(1)] assms(2)]
    tick_victory [of t]
  by simp

theorem victory_equivalence_witness:
  "reachable 1 (initSession 1) \<and> generateBlocksForLevel 1 \<noteq> []
   \<and> gameState (initSession 1) \<noteq> victory \<and> \<not> allDead (blocks (initSession 1))
   \<and> gameState (initSession 7) = playing
   \<and> (gameState (gameLoop (initSession 7)) = victory
        \<longleftrightarrow> allDead (blocks (gameLoop (initSession 7))))"
proof -
  have g: "generateBlocksForLevel 1 \<noteq> []"
    by (simp add: level1_list level1_def upt_rec)
  have p: "gameState (initSession 7) = playing"
    by (simp add: initSession_def Let_def)
  from victory_equivalence [OF reachable.start g, of "initSession 7"] g p reachable.start [of 1]
  show ?thesis
    by (simp add: initSession_def Let_def)
qed

text \<open>
  Claim C3 as the specification states it fails in a session for level 7, whose block
  list is empty: the session starts in the state \<open>playing\<close> although no block is alive,
  and its first tick changes the state to \<open>victory\<close> without destroying a block.
\<close>

theorem empty_level_not_victory:
  "reachable 7 (initSession 7)
   \<and> \<not> (gameState (initSession 7) = victory \<longleftrightarrow> allDead (blocks (initSession 7)))
   \<and> gameState (initSession 7) = playing
   \<and> gameState (gameLoop (initSession 7)) = victory
   \<and> blocks (gameLoop (initSession 7)) = blocks (initSession 7)"
proof -
  have g: "generateBlocksForLevel 7 = []"
    by (simp add: generateBlocksForLevel_def)
  have i: "gameState (initSession 7) = playing" "\<not> ballLaunched (initSession 7)"
    "ball (initSession 7) = Some (ballOnPaddle \<lparr>Paddle.x = 340, Paddle.y = 560, Paddle.width = 120, Paddle.height = 15\<rparr>)"
    "blocks (initSession 7) = []"
    by (simp_all add: initSession_def Let_def g)
  from gameLoop_waiting_fields(1,4) [OF i(1,2,3)] i reachable.start [of 7]
  show ?thesis by (simp add: allDead_def)
qed

subsection \<open>A session that loses a life\<close>

lemma blockCollisions_miss:
  "\<forall>block \<in> set bs. \<not> overlaps b block \<Longrightarrow> blockCollisions bs b sc = (bs, b, sc)"
  by (induction bs) simp_all

lemma straightUp_aloft: "straightUp = aloft 340 550 (- 4) level1 0"
  by (simp add: straightUp_def aloft_def handleClick_def launch_def handleMouseMove_def
        initSession_def Let_def ballOnPaddle_def level1_list)

lemma aloft_tick:
  assumes "\<forall>block \<in> set bs. Block.y block + Block.height block < py + v - 8"
    and "py + v - 8 \<le> 600" and "0 < py + v - 8" and "\<not> allDead bs"
  shows "gameLoop (aloft px py v bs sc) = aloft 0 (py + v) v bs sc"
proof -
  let ?b = "\<lparr>Ball.x = 400, Ball.y = py, dx = 0, dy = v, radius = 8\<rparr>"
  let ?p = "\<lparr>Paddle.x = 0, Paddle.y = 560, Paddle.width = 120, Paddle.height = 15\<rparr>"
  have pad: "updatePaddle {} 0 \<lparr>Paddle.x = px, Paddle.y = 560, Paddle.width = 120, Paddle.height = 15\<rparr> = ?p"
    by (simp add: updatePaddle_def CANVAS_WIDTH_def)
  have wall: "wallCollisions (moveBall ?b) = moveBall ?b"
    using assms(3) by (simp add: wallCollisions_def moveBall_def CANVAS_WIDTH_def Let_def)
  have pc: "paddleCollision ?p (moveBall ?b) = moveBall ?b"
    by (simp add: paddleCollision_def moveBall_def)
  have "\<forall>block \<in> set bs. \<not> overlaps (moveBall ?b) block"
    using assms(1) by (auto simp: overlaps_def moveBall_def)
  then have bc: "blockCollisions bs (moveBall ?b) sc = (bs, moveBall ?b, sc)"
    by (rule blockCollisions_miss)
  have ex: "\<not> exitsBottom ?b"
    using assms(2) by (simp add: exitsBottom_def moveBall_def CANVAS_HEIGHT_def)
  show ?thesis
    using assms(4) ex
    by (simp add: gameLoop_def aloft_def updateBall_def launchedStep_unfold Let_def pad wall pc bc
          checkVictory_def)
       (simp add: moveBall_def)
qed

lemma aloft_rise:
  assumes "\<forall>block \<in> set bs. Block.y block + Block.height block < B"
    and "B \<le> py - 4 * real n - 8" and "py - 8 \<le> 600" and "0 < B" and "\<not> allDead bs"
  shows "(gameLoop ^^ n) (aloft 0 py (- 4) bs sc) = aloft 0 (py - 4 * real n) (- 4) bs sc"
  using assms(2)
proof (induction n)
  case 0
  show ?case by simp
next
  case (Suc n)
  then have ih: "(gameLoop ^^ n) (aloft 0 py (- 4) bs sc) = aloft 0 (py - 4 * real n) (- 4) bs sc"
    by simp
  from Suc.prems have top: "B \<le> (py - 4 * real n) + (- 4) - 8" by simp
  with assms(1) have "\<forall>block \<in> set bs.
      Block.y block + Block.height block < (py - 4 * real n) + (- 4) - 8"
    by fastforce
  moreover from assms(3) have "(py - 4 * real n) + (- 4) - 8 \<le> 600" by simp
  moreover from top assms(4) have "0 < (py - 4 * real n) + (- 4) - 8" by simp
  ultimately have "gameLoop (aloft 0 (py - 4 * real n) (- 4) bs sc)
      = aloft 0 ((py - 4 * real n) + (- 4)) (- 4) bs sc"
    using assms(5) by (intro aloft_tick)
  then show ?case
    by (simp add: ih algebra_simps)
qed

lemma aloft_fall:
  assumes "\<forall>block \<in> set bs. Block.y block + Block.height block < B"
    and "B \<le> py + 4 - 8" and "py + 4 * real n - 8 \<le> 600" and "0 < B" and "\<not> allDead bs"
  shows "(gameLoop ^^ n) (aloft 0 py 4 bs sc) = aloft 0 (py + 4 * real n) 4 bs sc"
  using assms(3)
proof (induction n)
  case 0
  show ?case by simp
next
  case (Suc n)
  then have ih: "(gameLoop ^^ n) (aloft 0 py 4 bs sc) = aloft 0 (py + 4 * real n) 4 bs sc"
    by simp
  from assms(2) have top: "B \<le> (py + 4 * real n) + 4 - 8" by simp
  with assms(1) have "\<forall>block \<in> set bs.
      Block.y block + Block.height block < (py + 4 * real n) + 4 - 8"
    by fastforce
  moreover from Suc.prems have "(py + 4 * real n) + 4 - 8 \<le> 600" by simp
  moreover from top assms(4) have "0 < (py + 4 * real n) + 4 - 8" by simp
  ultimately have "gameLoop (aloft 0 (py + 4 * real n) 4 bs sc)
      = aloft 0 ((py + 4 * real n) + 4) 4 bs sc"
    using assms(5) by (intro aloft_tick)
  then show ?case
    by (simp add: ih algebra_simps)
qed

lemma level1_low: "\<forall>block \<in> set level1. Block.y block + Block.height block < 166"
  by (simp add: level1_def upt_rec newBlock_def)

lemma level1_some_alive: "\<not> allDead level1"
  by (simp add: level1_def upt_rec newBlock_def allDead_def)

lemma rise_94: "(gameLoop ^^ 94) straightUp = aloft 0 174 (- 4) level1 0"
proof -
  have "gameLoop straightUp = aloft 0 546 (- 4) level1 0"
    unfolding straightUp_aloft
    using aloft_tick [of level1 550 "- 4" 340 0] level1_low level1_some_alive by fastforce
  moreover have "(gameLoop ^^ 93) (aloft 0 546 (- 4) level1 0) = aloft 0 174 (- 4) level1 0"
    using aloft_rise [of level1 166 546 93 0] level1_low level1_some_alive by simp
  ultimately show ?thesis
    using funpow_add [of 93 1 gameLoop] by simp
qed

lemma hit_tick:
  "gameLoop (aloft 0 174 (- 4) level1 0)
     = aloft 0 170 4 (map (kill \<lparr>Ball.x = 400, Ball.y = 174, dx = 0, dy = - 4, radius = 8\<rparr>) level1) 10"
  by (simp add: aloft_def gameLoop_def updateBall_def launchedStep_def updatePaddle_def
        moveBall_def wallCollisions_def paddleCollision_def checkVictory_def allDead_def
        kill_def struck_def overlaps_def level1_def upt_rec newBlock_def
        CANVAS_WIDTH_def CANVAS_HEIGHT_def Let_def)

lemma kill_low:
  "\<forall>block \<in> set bs. Block.y block + Block.height block < B
     \<Longrightarrow> \<forall>block \<in> set (map (kill b) bs). Block.y block + Block.height block < B"
  by (auto simp: kill_def)

lemma hit_some_alive:
  "\<not> allDead (map (kill \<lparr>Ball.x = 400, Ball.y = 174, dx = 0, dy = - 4, radius = 8\<rparr>) level1)"
  by (simp add: allDead_def kill_def struck_def overlaps_def moveBall_def level1_def upt_rec
        newBlock_def)

lemma reachable_funpow: "reachable level s \<Longrightarrow> reachable level ((gameLoop ^^ n) s)"
  by (induction n) (simp_all add: reachable.tick)

lemma run_204:
  "(gameLoop ^^ 204) straightUp
     = aloft 0 606 4 (map (kill \<lparr>Ball.x = 400, Ball.y = 174, dx = 0, dy = - 4, radius = 8\<rparr>) level1) 10"
proof -
  let ?bs = "map (kill \<lparr>Ball.x = 400, Ball.y = 174, dx = 0, dy = - 4, radius = 8\<rparr>) level1"
  have "(gameLoop ^^ 95) straightUp = aloft 0 170 4 ?bs 10"
    using funpow_add [of 1 94 gameLoop] by (simp add: rise_94 hit_tick)
  moreover have "(gameLoop ^^ 109) (aloft 0 170 4 ?bs 10) = aloft 0 606 4 ?bs 10"
    using aloft_fall [of ?bs 166 170 109 10] kill_low [OF level1_low] hit_some_alive by simp
  ultimately show ?thesis
    using funpow_add [of 109 95 gameLoop] by simp
qed

text \<open>
  Claim C6. On a tick of a session in the state \<open>playing\<close> on which the top edge of the
  launched ball, once moved, is below the canvas bottom while more than one life is
  left, the lives go down by exactly 1, the state stays \<open>playing\<close>, and the ball is no
  longer launched and sits at \<open>(paddle x + paddle width / 2, paddle y - 10)\<close> with
  velocity \<open>(0, 0)\<close>.
\<close>

theorem life_loss_reset:
  assumes "reachable level s" and "gameState s = playing" and "ballLaunched s"
    and "ball s = Some b" and "exitsBottom b" and "1 < lives s"
  shows "lives (gameLoop s) = lives s - 1
       \<and> gameState (gameLoop s) = playing
       \<and> \<not> ballLaunched (gameLoop s)
       \<and> (\<exists>b'. ball (gameLoop s) = Some b'
             \<and> Ball.x b' = Paddle.x (paddle (gameLoop s)) + Paddle.width (paddle (gameLoop s)) / 2
             \<and> Ball.y b' = Paddle.y (paddle (gameLoop s)) - 10
             \<and> dx b' = 0 \<and> dy b' = 0)"
proof -
  from reachable_inv [OF assms(1)] have inv: "sessionInv s" by simp
  note f = gameLoop_launched_fields [OF assms(2,3,4)]
  have "\<not> allDead (blocks s)"
  proof
    assume "allDead (blocks s)"
    with inv assms(2,4) have "Ball.y b = 550" "dy b \<le> 0" "radius b = 8"
      by (auto simp: sessionInv_def)
    then have "\<not> exitsBottom b" by (intro start_no_exit)
    with assms(5) show False by simp
  qed
  moreover from inv have "list_all insideMargins (blocks s)" by (simp add: sessionInv_def)
  ultimately have alive: "\<not> allDead (map (kill b) (blocks s))"
    using assms(5) by (intro exits_keeps_alive)
  from f(6) assms(5,6) obtain b' where "ball (gameLoop s) = Some b'"
    "Ball.x b' = Paddle.x (paddle (gameLoop s)) + Paddle.width (paddle (gameLoop s)) / 2"
    "Ball.y b' = Paddle.y (paddle (gameLoop s)) - 10" "dx b' = 0" "dy b' = 0"
    by auto
  then show ?thesis
    using assms(5,6) alive by (simp add: f(3,4,5))
qed

theorem life_loss_reset_witness:
  "reachable 1 ((gameLoop ^^ 204) straightUp)
   \<and> gameState ((gameLoop ^^ 204) straightUp) = playing
   \<and> ballLaunched ((gameLoop ^^ 204) straightUp)
   \<and> ball ((gameLoop ^^ 204) straightUp)
       = Some \<lparr>Ball.x = 400, Ball.y = 606, dx = 0, dy = 4, radius = 8\<rparr>
   \<and> exitsBottom \<lparr>Ball.x = 400, Ball.y = 606, dx = 0, dy = 4, radius = 8\<rparr>
   \<and> lives ((gameLoop ^^ 204) straightUp) = 3
   \<and> lives (gameLoop ((gameLoop ^^ 204) straightUp)) = 2
   \<and> gameState (gameLoop ((gameLoop ^^ 204) straightUp)) = playing
   \<and> \<not> ballLaunched (gameLoop ((gameLoop ^^ 204) straightUp))"
proof -
  let ?s = "(gameLoop ^^ 204) straightUp"
  let ?b = "\<lparr>Ball.x = 400, Ball.y = 606, dx = 0, dy = 4, radius = 8\<rparr>"
  have "reachable 1 straightUp"
    unfolding straightUp_def
    by (intro reachable.click reachable.mouseMove reachable.start) simp_all
  then have r: "reachable 1 ?s" by (rule reachable_funpow)
  have f: "gameState ?s = playing" "ballLaunched ?s" "ball ?s = Some ?b" "lives ?s = 3"
    by (simp_all add: run_204 aloft_def)
  have e: "exitsBottom ?b"
    by (simp add: exitsBottom_def moveBall_def CANVAS_HEIGHT_def)
  have l: "1 < lives ?s" by (simp add: f)
  from life_loss_reset [OF r f(1,2,3) e l] r f e show ?thesis by simp
qed

subsection \<open>A session that loses all lives\<close>

lemma aloft_flying: "aloft px py v bs sc = flying 3 0 px 400 py v bs sc"
  by (simp add: aloft_def flying_def)

lemma pointer_paddle:
  "updatePaddle {} mx \<lparr>Paddle.x = px, Paddle.y = 560, Paddle.width = 120, Paddle.height = 15\<rparr>
     = \<lparr>Paddle.x = max 0 (min 680 (mx - 60)), Paddle.y = 560, Paddle.width = 120,
        Paddle.height = 15\<rparr>"
  by (simp add: updatePaddle_def CANVAS_WIDTH_def)

text \<open>A tick on which the launched ball touches nothing and stays on the canvas.\<close>

lemma flying_tick:
  assumes "\<forall>block \<in> set bs. \<not> overlaps \<lparr>Ball.x = bx, Ball.y = py + v, dx = 0, dy = v, radius = 8\<rparr> block"
    and "py + v - 8 \<le> 600" and "0 < py + v - 8" and "8 < bx" and "bx + 8 < 800"
    and "max 0 (min 680 (mx - 60)) + 120 < bx \<or> py + v + 8 < 560"
    and "\<not> allDead bs"
  shows "gameLoop (flying lv mx px bx py v bs sc)
           = flying lv mx (max 0 (min 680 (mx - 60))) bx (py + v) v bs sc"
proof -
  let ?b = "\<lparr>Ball.x = bx, Ball.y = py, dx = 0, dy = v, radius = 8\<rparr>"
  let ?p = "\<lparr>Paddle.x = max 0 (min 680 (mx - 60)), Paddle.y = 560, Paddle.width = 120,
             Paddle.height = 15\<rparr>"
  have mv: "moveBall ?b = \<lparr>Ball.x = bx, Ball.y = py + v, dx = 0, dy = v, radius = 8\<rparr>"
    by (simp add: moveBall_def)
  have wall: "wallCollisions (moveBall ?b) = moveBall ?b"
    using assms(3,4,5) by (simp add: wallCollisions_def mv CANVAS_WIDTH_def Let_def)
  have pc: "paddleCollision ?p (moveBall ?b) = moveBall ?b"
    using assms(6) by (auto simp: paddleCollision_def mv)
  have bc: "blockCollisions bs (moveBall ?b) sc = (bs, moveBall ?b, sc)"
    using assms(1) unfolding mv by (rule blockCollisions_miss)
  show ?thesis
    using assms(2,7)
    by (simp add: gameLoop_def flying_def updateBall_def launchedStep_def Let_def pointer_paddle
          wall pc bc checkVictory_def)
       (simp add: mv CANVAS_HEIGHT_def)
qed

text \<open>A tick on which the ball reaches the top wall and turns.\<close>

lemma flying_bounce:
  assumes "\<forall>block \<in> set bs. \<not> overlaps \<lparr>Ball.x = bx, Ball.y = py + v, dx = 0, dy = v, radius = 8\<rparr> block"
    and "py + v - 8 \<le> 0" and "8 < bx" and "bx + 8 < 800" and "\<not> allDead bs"
  shows "gameLoop (flying lv mx px bx py v bs sc)
           = flying lv mx (max 0 (min 680 (mx - 60))) bx (py + v) (- v) bs sc"
proof -
  let ?b = "\<lparr>Ball.x = bx, Ball.y = py, dx = 0, dy = v, radius = 8\<rparr>"
  let ?b' = "\<lparr>Ball.x = bx, Ball.y = py + v, dx = 0, dy = - v, radius = 8\<rparr>"
  let ?p = "\<lparr>Paddle.x = max 0 (min 680 (mx - 60)), Paddle.y = 560, Paddle.width = 120,
             Paddle.height = 15\<rparr>"
  have mv: "moveBall ?b = \<lparr>Ball.x = bx, Ball.y = py + v, dx = 0, dy = v, radius = 8\<rparr>"
    by (simp add: moveBall_def)
  have wall: "wallCollisions (moveBall ?b) = ?b'"
    using assms(2,3,4) by (simp add: wallCollisions_def mv CANVAS_WIDTH_def Let_def)
  have pc: "paddleCollision ?p ?b' = ?b'"
    using assms(2) by (simp add: paddleCollision_def)
  have "\<forall>block \<in> set bs. \<not> overlaps ?b' block"
    using assms(1) by (simp add: overlaps_def)
  then have bc: "blockCollisions bs ?b' sc = (bs, ?b', sc)"
    by (rule blockCollisions_miss)
  show ?thesis
    using assms(2,5)
    by (simp add: gameLoop_def flying_def updateBall_def launchedStep_def Let_def pointer_paddle
          wall pc bc checkVictory_def CANVAS_HEIGHT_def)
qed

text \<open>A tick on which the ball leaves through the bottom.\<close>

lemma flying_exit:
  assumes "\<forall>block \<in> set bs. \<not> overlaps \<lparr>Ball.x = bx, Ball.y = py + v, dx = 0, dy = v, radius = 8\<rparr> block"
    and "600 < py + v - 8" and "8 < bx" and "bx + 8 < 800" and "\<not> allDead bs"
  shows "gameLoop (flying lv mx px bx py v bs sc)
           = (if lv - 1 \<le> 0
              then (flying lv mx (max 0 (min 680 (mx - 60))) bx (py + v) v bs sc)
                     \<lparr>gameState := defeat, lives := lv - 1\<rparr>
              else resting (lv - 1) mx (max 0 (min 680 (mx - 60)))
                     (max 0 (min 680 (mx - 60)) + 60) bs sc)"
proof -
  let ?b = "\<lparr>Ball.x = bx, Ball.y = py, dx = 0, dy = v, radius = 8\<rparr>"
  let ?p = "\<lparr>Paddle.x = max 0 (min 680 (mx - 60)), Paddle.y = 560, Paddle.width = 120,
             Paddle.height = 15\<rparr>"
  have mv: "moveBall ?b = \<lparr>Ball.x = bx, Ball.y = py + v, dx = 0, dy = v, radius = 8\<rparr>"
    by (simp add: moveBall_def)
  have wall: "wallCollisions (moveBall ?b) = moveBall ?b"
    using assms(2,3,4) by (simp add: wallCollisions_def mv CANVAS_WIDTH_def Let_def)
  have pc: "paddleCollision ?p (moveBall ?b) = moveBall ?b"
    using assms(2) by (simp add: paddleCollision_def mv)
  have bc: "blockCollisions bs (moveBall ?b) sc = (bs, moveBall ?b, sc)"
    using assms(1) unfolding mv by (rule blockCollisions_miss)
  show ?thesis
    using assms(2,5)
    by (simp add: gameLoop_def flying_def resting_def updateBall_def launchedStep_def Let_def
          pointer_paddle wall pc bc checkVictory_def loseLife_def)
       (simp add: mv CANVAS_HEIGHT_def)
qed

lemma resting_tick:
  assumes "\<not> allDead bs"
  shows "gameLoop (resting lv mx px bx bs sc)
           = resting lv mx (max 0 (min 680 (mx - 60))) (max 0 (min 680 (mx - 60)) + 60) bs sc"
  using assms
  by (simp add: gameLoop_def resting_def updateBall_def pointer_paddle checkVictory_def)

lemma resting_click: "handleClick (1 / 2) (resting lv mx px bx bs sc) = flying lv mx px bx 550 (- 4) bs sc"
  by (simp add: handleClick_def launch_def resting_def flying_def Let_def)

lemma resting_mouse: "handleMouseMove mx' (resting lv mx px bx bs sc) = resting lv mx' px bx bs sc"
  by (simp add: handleMouseMove_def resting_def)

lemma flying_mouse:
  "handleMouseMove mx' (flying lv mx px bx py v bs sc) = flying lv mx' px bx py v bs sc"
  by (simp add: handleMouseMove_def flying_def)

lemma side_clear:
  assumes "\<forall>block \<in> set bs. Block.x block + Block.width block < 732"
  shows "\<forall>block \<in> set bs. \<not> overlaps \<lparr>Ball.x = 740, Ball.y = py, dx = 0, dy = v, radius = 8\<rparr> block"
  using assms by (fastforce simp: overlaps_def)

lemma side_rise:
  assumes "\<forall>block \<in> set bs. Block.x block + Block.width block < 732" and "\<not> allDead bs"
    and "0 < py - 4 * real n - 8" and "py - 8 \<le> 600"
  shows "(gameLoop ^^ n) (flying lv 0 0 740 py (- 4) bs sc)
           = flying lv 0 0 740 (py - 4 * real n) (- 4) bs sc"
  using assms(3)
proof (induction n)
  case 0
  show ?case by simp
next
  case (Suc n)
  then have ih: "(gameLoop ^^ n) (flying lv 0 0 740 py (- 4) bs sc)
                   = flying lv 0 0 740 (py - 4 * real n) (- 4) bs sc"
    by simp
  have "gameLoop (flying lv 0 0 740 (py - 4 * real n) (- 4) bs sc)
          = flying lv 0 (max 0 (min 680 (0 - 60))) 740 ((py - 4 * real n) + (- 4)) (- 4) bs sc"
    using Suc.prems assms(2,4) by (intro flying_tick side_clear [OF assms(1)]) simp_all
  then show ?case
    by (simp add: ih algebra_simps)
qed

lemma side_fall:
  assumes "\<forall>block \<in> set bs. Block.x block + Block.width block < 732" and "\<not> allDead bs"
    and "0 < py + 4 - 8" and "py + 4 * real n - 8 \<le> 600"
  shows "(gameLoop ^^ n) (flying lv 0 0 740 py 4 bs sc)
           = flying lv 0 0 740 (py + 4 * real n) 4 bs sc"
  using assms(4)
proof (induction n)
  case 0
  show ?case by simp
next
  case (Suc n)
  then have ih: "(gameLoop ^^ n) (flying lv 0 0 740 py 4 bs sc)
                   = flying lv 0 0 740 (py + 4 * real n) 4 bs sc"
    by simp
  have "gameLoop (flying lv 0 0 740 (py + 4 * real n) 4 bs sc)
          = flying lv 0 (max 0 (min 680 (0 - 60))) 740 ((py + 4 * real n) + 4) 4 bs sc"
    using Suc.prems assms(2,3) by (intro flying_tick side_clear [OF assms(1)]) simp_all
  then show ?case
    by (simp add: ih algebra_simps)
qed

lemma nextLife_resting:
  assumes "\<forall>block \<in> set bs. Block.x block + Block.width block < 732" and "\<not> allDead bs"
  shows "nextLife (resting lv 0 0 60 bs sc) = flying lv 0 0 740 606 4 bs sc"
proof -
  note clear = side_clear [OF assms(1)]
  have a: "handleMouseMove 0 (handleClick (1 / 2) (gameLoop (handleMouseMove 800 (resting lv 0 0 60 bs sc))))
             = flying lv 0 680 740 550 (- 4) bs sc"
    using assms(2) by (simp add: resting_mouse resting_tick resting_click flying_mouse)
  have b: "gameLoop (flying lv 0 680 740 550 (- 4) bs sc) = flying lv 0 0 740 546 (- 4) bs sc"
    using flying_tick [OF clear, of 550 "- 4" 0 lv 680 sc] assms(2) by simp
  have c: "(gameLoop ^^ 134) (flying lv 0 0 740 546 (- 4) bs sc) = flying lv 0 0 740 10 (- 4) bs sc"
    using side_rise [OF assms, of 546 134 lv sc] by simp
  have d: "gameLoop (flying lv 0 0 740 10 (- 4) bs sc) = flying lv 0 0 740 6 4 bs sc"
    using flying_bounce [OF clear, of 10 "- 4" lv 0 0 sc] assms(2) by simp
  have e: "(gameLoop ^^ 150) (flying lv 0 0 740 6 4 bs sc) = flying lv 0 0 740 606 4 bs sc"
    using side_fall [OF assms, of 6 150 lv sc] by simp
  have "(gameLoop ^^ 286) s = (gameLoop ^^ 150) (gameLoop ((gameLoop ^^ 134) (gameLoop s)))" for s
    using funpow_add [of 150 136 gameLoop] funpow_add [of 1 135 gameLoop]
      funpow_add [of 134 1 gameLoop]
    by simp
  then show ?thesis
    by (simp only: nextLife_def a b c d e)
qed

lemma level1_left: "\<forall>block \<in> set level1. Block.x block + Block.width block < 732"
  by (simp add: level1_def upt_rec newBlock_def)

lemma kill_left:
  "\<forall>block \<in> set bs. Block.x block + Block.width block < B
     \<Longrightarrow> \<forall>block \<in> set (map (kill b) bs). Block.x block + Block.width block < B"
  by (auto simp: kill_def)

lemma low_clear:
  assumes "\<forall>block \<in> set bs. Block.y block + Block.height block < 166"
  shows "\<forall>block \<in> set bs. \<not> overlaps \<lparr>Ball.x = bx, Ball.y = 606 + 4, dx = 0, dy = v, radius = 8\<rparr> block"
  using assms by (fastforce simp: overlaps_def)

lemma first_life_lost:
  "gameLoop ((gameLoop ^^ 204) straightUp)
     = resting 2 0 0 60
         (map (kill \<lparr>Ball.x = 400, Ball.y = 174, dx = 0, dy = - 4, radius = 8\<rparr>) level1) 10"
  using flying_exit [OF low_clear [OF kill_low [OF level1_low]], where bx = 400 and lv = 3 and mx = 0 and px = 0 and sc = 10]
    hit_some_alive
  by (simp add: run_204 aloft_flying)

lemma second_life_lost:
  "gameLoop (nextLife (gameLoop ((gameLoop ^^ 204) straightUp)))
     = resting 1 0 0 60
         (map (kill \<lparr>Ball.x = 400, Ball.y = 174, dx = 0, dy = - 4, radius = 8\<rparr>) level1) 10"
  using flying_exit [OF low_clear [OF kill_low [OF level1_low]], where bx = 740 and lv = 2 and mx = 0 and px = 0 and sc = 10]
    hit_some_alive
  by (simp add: first_life_lost nextLife_resting [OF kill_left [OF level1_left] hit_some_alive])

lemma lastLife_flying:
  "lastLife = flying 1 0 0 740 606 4
      (map (kill \<lparr>Ball.x = 400, Ball.y = 174, dx = 0, dy = - 4, radius = 8\<rparr>) level1) 10"
  by (simp add: lastLife_def second_life_lost
        nextLife_resting [OF kill_left [OF level1_left] hit_some_alive])

lemma reachable_nextLife: "reachable level s \<Longrightarrow> reachable level (nextLife s)"
  unfolding nextLife_def
  by (intro reachable_funpow reachable.mouseMove reachable.click reachable.tick) simp_all

lemma reachable_lastLife: "reachable 1 lastLife"
proof -
  have "reachable 1 straightUp"
    unfolding straightUp_def
    by (intro reachable.click reachable.mouseMove reachable.start) simp_all
  then show ?thesis
    unfolding lastLife_def
    by (intro reachable_nextLife reachable.tick reachable_funpow)
qed

lemma third_life_lost:
  "gameLoop lastLife
     = (flying 1 0 0 740 610 4
          (map (kill \<lparr>Ball.x = 400, Ball.y = 174, dx = 0, dy = - 4, radius = 8\<rparr>) level1) 10)
         \<lparr>gameState := defeat, lives := 0\<rparr>"
  using flying_exit [OF low_clear [OF kill_low [OF level1_low]], where bx = 740 and lv = 1 and mx = 0 and px = 0 and sc = 10]
    hit_some_alive
  by (simp add: lastLife_flying)

theorem defeat_frozen_witness:
  "reachable 1 lastLife
   \<and> gameState lastLife = playing \<and> ballLaunched lastLife
   \<and> ball lastLife = Some \<lparr>Ball.x = 740, Ball.y = 606, dx = 0, dy = 4, radius = 8\<rparr>
   \<and> exitsBottom \<lparr>Ball.x = 740, Ball.y = 606, dx = 0, dy = 4, radius = 8\<rparr>
   \<and> lives lastLife = 1
   \<and> lives (gameLoop lastLife) = 0 \<and> gameState (gameLoop lastLife) = defeat
   \<and> Restart \<notin> set [Tick, Click (1 / 2), TogglePause, KeyDown '' '' 0, Tick]
   \<and> gameState (run [Tick, Click (1 / 2), TogglePause, KeyDown '' '' 0, Tick] (gameLoop lastLife))
       = defeat
   \<and> lives (run [Tick, Click (1 / 2), TogglePause, KeyDown '' '' 0, Tick] (gameLoop lastLife)) = 0
   \<and> score (run [Tick, Click (1 / 2), TogglePause, KeyDown '' '' 0, Tick] (gameLoop lastLife)) = 10"
proof -
  let ?b = "\<lparr>Ball.x = 740, Ball.y = 606, dx = 0, dy = 4, radius = 8\<rparr>"
  let ?evs = "[Tick, Click (1 / 2), TogglePause, KeyDown '' '' 0, Tick]"
  note r = reachable_lastLife
  have f: "gameState lastLife = playing" "ballLaunched lastLife" "ball lastLife = Some ?b"
    "lives lastLife = 1" "score lastLife = 10"
    by (simp_all add: lastLife_flying flying_def)
  have e: "exitsBottom ?b"
    by (simp add: exitsBottom_def moveBall_def CANVAS_HEIGHT_def)
  have n: "Restart \<notin> set ?evs" by simp
  from defeat_frozen [OF r, of ?b "gameLoop lastLife" ?evs] f e
  have lost: "lives (gameLoop lastLife) = 0" "gameState (gameLoop lastLife) = defeat"
    by simp_all
  have sc: "score (gameLoop lastLife) = 10"
    by (simp add: third_life_lost flying_def)
  from lost n have d: "gameState (gameLoop lastLife) = defeat \<and> Restart \<notin> set ?evs"
    by (intro conjI)
  from defeat_frozen [OF r, of ?b "gameLoop lastLife" ?evs] d
  have "gameState (run ?evs (gameLoop lastLife)) = defeat"
    and "lives (run ?evs (gameLoop lastLife)) = lives (gameLoop lastLife)"
    and "score (run ?evs (gameLoop lastLife)) = score (gameLoop lastLife)"
    by blast+
  then have "gameState (run ?evs (gameLoop lastLife)) = defeat"
    and "lives (run ?evs (gameLoop lastLife)) = 0"
    and "score (run ?evs (gameLoop lastLife)) = 10"
    by (simp_all only: lost sc)
  with r f(1-4) e n lost show ?thesis
    by (intro conjI)
qed

end
